theory Spec2Isabelle
  imports Main
begin

section \<open>Bytes, strings and runes\<close>

text \<open>
  A Go \<open>string\<close> and a Go \<open>[]byte\<close> are both sequences of bytes; here they are
  \<^typ>\<open>string\<close>, a list of 8-bit \<^typ>\<open>char\<close>. A rune (a Unicode code point, Go's
  \<open>int32\<close>) is a \<^typ>\<open>nat\<close>: every rune the program handles is non-negative.
  The backslash and the single quote cannot be written inside a string literal, so
  they have names.
\<close>

definition bslash :: char where
  "bslash = CHR 0x5C"

definition squote :: char where
  "squote = CHR 0x27"

definition dquote :: char where
  "dquote = CHR 0x22"

definition code :: "char \<Rightarrow> nat" where
  "code c = of_char c"

definition byte :: "nat \<Rightarrow> char" where
  \<comment> \<open>Go's conversion \<open>byte(r)\<close>: the low eight bits.\<close>
  "byte n = char_of n"

definition HasPrefix :: "string \<Rightarrow> string \<Rightarrow> bool" where
  "HasPrefix s p = (take (length p) s = p)"

definition HasSuffix :: "string \<Rightarrow> string \<Rightarrow> bool" where
  "HasSuffix s p = (length p \<le> length s \<and> drop (length s - length p) s = p)"

subsection \<open>UTF-8 (package \<open>unicode/utf8\<close>)\<close>

definition RuneError :: nat where
  "RuneError = 0xFFFD"

definition MaxRune :: nat where
  "MaxRune = 0x10FFFF"

definition ValidRune :: "nat \<Rightarrow> bool" where
  "ValidRune r = (r < 0xD800 \<or> (0xDFFF < r \<and> r \<le> MaxRune))"

fun DecodeRune :: "string \<Rightarrow> nat \<times> nat" where
  "DecodeRune [] = (RuneError, 0)"
| "DecodeRune (p0 # p) =
    (let c0 = code p0 in
     if c0 < 0x80 then (c0, 1)
     else if c0 < 0xC2 \<or> 0xF4 < c0 then (RuneError, 1)
     else
       let sz = (if c0 < 0xE0 then 2 else if c0 < 0xF0 then 3 else 4);
           lo = (if c0 = 0xE0 then 0xA0 else if c0 = 0xF0 then 0x90 else 0x80);
           hi = (if c0 = 0xED then 0x9F else if c0 = 0xF4 then 0x8F else 0xBF)
       in
         if Suc (length p) < sz then (RuneError, 1)
         else
           let b1 = code (p ! 0) in
           if b1 < lo \<or> hi < b1 then (RuneError, 1)
           else if sz \<le> 2 then ((c0 mod 32) * 64 + b1 mod 64, 2)
           else
             let b2 = code (p ! 1) in
             if b2 < 0x80 \<or> 0xBF < b2 then (RuneError, 1)
             else if sz \<le> 3 then
               ((c0 mod 16) * 4096 + (b1 mod 64) * 64 + b2 mod 64, 3)
             else
               let b3 = code (p ! 2) in
               if b3 < 0x80 \<or> 0xBF < b3 then (RuneError, 1)
               else ((c0 mod 8) * 262144 + (b1 mod 64) * 4096
                       + (b2 mod 64) * 64 + b3 mod 64, 4))"

definition RuneStart :: "char \<Rightarrow> bool" where
  \<comment> \<open>not a continuation byte \<open>10xxxxxx\<close>\<close>
  "RuneStart b = (code b < 0x80 \<or> 0xC0 \<le> code b)"

fun back_to_start :: "string \<Rightarrow> nat \<Rightarrow> nat \<Rightarrow> nat" where
  \<comment> \<open>the loop \<open>for start--; start >= lim; start--\<close> of \<open>DecodeLastRune\<close>, on
      \<open>start + 1\<close> so that the index stays a natural number; the result \<open>0\<close> stands
      for the \<open>start < 0\<close> that the code then resets to \<open>0\<close>\<close>
  "back_to_start s lim 0 = 0"
| "back_to_start s lim (Suc start) =
     (if Suc start \<le> lim then start
      else if RuneStart (s ! start) then start
      else back_to_start s lim start)"

definition DecodeLastRune :: "string \<Rightarrow> nat \<times> nat" where
  "DecodeLastRune s =
     (let end = length s in
      if end = 0 then (RuneError, 0)
      else
        let r = code (s ! (end - 1)) in
        if r < 0x80 then (r, 1)
        else
          let start = back_to_start s (end - 4) (end - 1);
              (r', size') = DecodeRune (drop start s)
          in if start + size' \<noteq> end then (RuneError, 1) else (r', size'))"

definition AppendRune :: "string \<Rightarrow> nat \<Rightarrow> string" where
  "AppendRune p r =
     (if r \<le> 0x7F then p @ [byte r]
      else if r \<le> 0x7FF then p @ [byte (0xC0 + r div 64), byte (0x80 + r mod 64)]
      else
        let r' = (if MaxRune < r \<or> (0xD800 \<le> r \<and> r \<le> 0xDFFF) then RuneError else r) in
        if r' \<le> 0xFFFF then
          p @ [byte (0xE0 + r' div 4096), byte (0x80 + (r' div 64) mod 64),
               byte (0x80 + r' mod 64)]
        else
          p @ [byte (0xF0 + r' div 262144), byte (0x80 + (r' div 4096) mod 64),
               byte (0x80 + (r' div 64) mod 64), byte (0x80 + r' mod 64)])"

subsection \<open>Strings, paths and formatting (packages \<open>strings\<close>, \<open>unicode\<close>, \<open>filepath\<close>, \<open>fmt\<close>)\<close>

definition IsSpace :: "nat \<Rightarrow> bool" where
  \<comment> \<open>\<open>unicode.IsSpace\<close>: the Latin-1 spaces, then the White_Space table\<close>
  "IsSpace r =
     (r \<in> {0x09, 0x0A, 0x0B, 0x0C, 0x0D, 0x20, 0x85, 0xA0, 0x1680, 0x2028, 0x2029,
             0x202F, 0x205F, 0x3000}
      \<or> (0x2000 \<le> r \<and> r \<le> 0x200A))"

lemma DecodeRune_size_pos: "DecodeRune (c # s) = (r, n) \<Longrightarrow> 0 < n"
  by (auto simp: Let_def split: if_splits)

function TrimLeft :: "string \<Rightarrow> string" where
  \<comment> \<open>\<open>strings.TrimLeftFunc(s, unicode.IsSpace)\<close>: the leading runes that are spaces are
      dropped\<close>
  "TrimLeft [] = []"
| "TrimLeft (c # s) =
     (if IsSpace (fst (DecodeRune (c # s))) then
        TrimLeft (drop (snd (DecodeRune (c # s))) (c # s))
      else c # s)"
  by pat_completeness auto
termination
proof (relation "measure length")
  show "wf (measure length)"
    by simp
next
  fix c :: char and s :: string
  have "0 < snd (DecodeRune (c # s))"
    using DecodeRune_size_pos [of c s] by (cases "DecodeRune (c # s)") simp
  then show "(drop (snd (DecodeRune (c # s))) (c # s), c # s) \<in> measure length"
    by simp
qed

lemma back_to_start_le: "back_to_start s lim k \<le> k"
  by (induction k) auto

lemma DecodeLastRune_size_pos:
  assumes "s \<noteq> []" and "DecodeLastRune s = (r, n)"
  shows "0 < n"
proof -
  define start where "start = back_to_start s (length s - 4) (length s - 1)"
  have "start < length s"
    using assms(1) back_to_start_le [of s "length s - 4" "length s - 1"]
    by (cases s) (auto simp: start_def)
  then obtain c t where ct: "drop start s = c # t"
    by (cases "drop start s") auto
  obtain r' n' where d: "DecodeRune (c # t) = (r', n')"
    by (cases "DecodeRune (c # t)")
  have "0 < n'"
    using DecodeRune_size_pos [OF d] .
  with assms(2) ct d show ?thesis
    by (auto simp: DecodeLastRune_def Let_def start_def split: if_splits)
qed

function TrimRight :: "string \<Rightarrow> string" where
  \<comment> \<open>\<open>strings.TrimRightFunc(s, unicode.IsSpace)\<close>: the trailing runes that are spaces
      are dropped\<close>
  "TrimRight [] = []"
| "TrimRight (c # s) =
     (if IsSpace (fst (DecodeLastRune (c # s))) then
        TrimRight (take (length (c # s) - snd (DecodeLastRune (c # s))) (c # s))
      else c # s)"
  by pat_completeness auto
termination
proof (relation "measure length")
  show "wf (measure length)"
    by simp
next
  fix c :: char and s :: string
  have "0 < snd (DecodeLastRune (c # s))"
    using DecodeLastRune_size_pos [of "c # s"] by (cases "DecodeLastRune (c # s)") simp
  then show "(take (length (c # s) - snd (DecodeLastRune (c # s))) (c # s), c # s)
               \<in> measure length"
    by simp
qed

declare TrimLeft.simps [simp del] TrimRight.simps [simp del]

definition TrimSpace :: "string \<Rightarrow> string" where
  "TrimSpace s = TrimRight (TrimLeft s)"

fun Split :: "string \<Rightarrow> char \<Rightarrow> string list" where
  \<comment> \<open>\<open>strings.Split(s, sep)\<close> for a separator of one byte\<close>
  "Split [] sep = [[]]"
| "Split (c # cs) sep =
     (if c = sep then [] # Split cs sep
      else (case Split cs sep of [] \<Rightarrow> [[c]] | x # xs \<Rightarrow> (c # x) # xs))"

fun Ext_rev :: "string \<Rightarrow> string \<Rightarrow> string" where
  \<comment> \<open>the loop of \<open>filepath.Ext\<close>, from the last byte backwards: the first argument
      is the reversed path still to look at, the second the bytes already passed\<close>
  "Ext_rev [] acc = []"
| "Ext_rev (c # cs) acc =
     (if c = CHR ''/'' then []
      else if c = CHR ''.'' then c # acc
      else Ext_rev cs (c # acc))"

definition Ext :: "string \<Rightarrow> string" where
  "Ext path = Ext_rev (rev path) []"

fun decimal :: "nat \<Rightarrow> string" where
  "decimal n =
     (if n < 10 then [byte (code (CHR ''0'') + n)]
      else decimal (n div 10) @ [byte (code (CHR ''0'') + n mod 10)])"

declare decimal.simps [simp del]

definition fmt_d :: "int \<Rightarrow> string" where
  \<comment> \<open>the verb \<open>%d\<close>\<close>
  "fmt_d i = (if i < 0 then CHR ''-'' # decimal (nat (- i)) else decimal (nat i))"

subsection \<open>Unquoting (package \<open>strconv\<close>)\<close>

text \<open>
  \<open>strconv.Unquote\<close> and \<open>strconv.UnquoteChar\<close> of Go's standard library, which
  \<open>unquoteStr\<close> calls. \<open>Unquote\<close> first tries a path without allocation for literals
  that hold no escape; that path returns what the general loop returns, so only the
  loop is written here. The errors of the library and of the program are values of one
  type.
\<close>

datatype error =
    ErrSyntax
  | LibError string
  | FlagAlreadySet
  | CannotFetch string error
  | NoSignaturesLoaded
  | FailedToCompile int string error

definition unhex :: "char \<Rightarrow> nat option" where
  "unhex b =
     (let c = code b in
      if code (CHR ''0'') \<le> c \<and> c \<le> code (CHR ''9'') then Some (c - code (CHR ''0''))
      else if code (CHR ''a'') \<le> c \<and> c \<le> code (CHR ''f'') then Some (c - code (CHR ''a'') + 10)
      else if code (CHR ''A'') \<le> c \<and> c \<le> code (CHR ''F'') then Some (c - code (CHR ''A'') + 10)
      else None)"

fun hex_digits :: "nat \<Rightarrow> string \<Rightarrow> nat option" where
  \<comment> \<open>\<open>v = v<<4 | x\<close> over the digits, failing at the first byte that is no hex digit\<close>
  "hex_digits v [] = Some v"
| "hex_digits v (c # cs) =
     (case unhex c of None \<Rightarrow> None | Some x \<Rightarrow> hex_digits (v * 16 + x) cs)"

fun oct_digits :: "nat \<Rightarrow> string \<Rightarrow> nat option" where
  \<comment> \<open>\<open>v = (v << 3) | x\<close> with \<open>x = s[j] - '0'\<close>, failing when \<open>x < 0 || x > 7\<close>\<close>
  "oct_digits v [] = Some v"
| "oct_digits v (c # cs) =
     (if code c < code (CHR ''0'') \<or> code (CHR ''7'') < code c then None
      else oct_digits (v * 8 + (code c - code (CHR ''0''))) cs)"

definition UnquoteChar :: "string \<Rightarrow> char \<Rightarrow> error + (nat \<times> bool \<times> string)" where
  \<comment> \<open>the result is \<open>(value, multibyte, tail)\<close>\<close>
  "UnquoteChar s quote =
     (case s of
        [] \<Rightarrow> Inl ErrSyntax
      | c0 # s1 \<Rightarrow>
          if c0 = quote \<and> (quote = squote \<or> quote = dquote) then Inl ErrSyntax
          else if 0x80 \<le> code c0 then
            (let (r, size') = DecodeRune s in Inr (r, True, drop size' s))
          else if c0 \<noteq> bslash then Inr (code c0, False, s1)
          else
            (case s1 of
               [] \<Rightarrow> Inl ErrSyntax
             | c # s2 \<Rightarrow>
                 if c = CHR ''a'' then Inr (7, False, s2)
                 else if c = CHR ''b'' then Inr (8, False, s2)
                 else if c = CHR ''f'' then Inr (12, False, s2)
                 else if c = CHR ''n'' then Inr (10, False, s2)
                 else if c = CHR ''r'' then Inr (13, False, s2)
                 else if c = CHR ''t'' then Inr (9, False, s2)
                 else if c = CHR ''v'' then Inr (11, False, s2)
                 else if c = CHR ''x'' \<or> c = CHR ''u'' \<or> c = CHR ''U'' then
                   (let n = (if c = CHR ''x'' then 2 else if c = CHR ''u'' then 4 else 8) in
                    if length s2 < n then Inl ErrSyntax
                    else
                      (case hex_digits 0 (take n s2) of
                         None \<Rightarrow> Inl ErrSyntax
                       | Some v \<Rightarrow>
                           if c = CHR ''x'' then Inr (v, False, drop n s2)
                           else if \<not> ValidRune v then Inl ErrSyntax
                           else Inr (v, True, drop n s2)))
                 else if code (CHR ''0'') \<le> code c \<and> code c \<le> code (CHR ''7'') then
                   (if length s2 < 2 then Inl ErrSyntax
                    else
                      (case oct_digits (code c - code (CHR ''0'')) (take 2 s2) of
                         None \<Rightarrow> Inl ErrSyntax
                       | Some v \<Rightarrow>
                           if 255 < v then Inl ErrSyntax else Inr (v, False, drop 2 s2)))
                 else if c = bslash then Inr (code bslash, False, s2)
                 else if c = squote \<or> c = dquote then
                   (if c \<noteq> quote then Inl ErrSyntax else Inr (code c, False, s2))
                 else Inl ErrSyntax))"

lemma UnquoteChar_shorter:
  "UnquoteChar s quote = Inr (r, m, t) \<Longrightarrow> length t < length s"
  unfolding UnquoteChar_def
  by (auto simp: Let_def dest: DecodeRune_size_pos
           split: list.splits if_splits option.splits prod.splits)

function unquote_chars :: "char \<Rightarrow> string \<Rightarrow> string \<Rightarrow> error + (string \<times> string)" where
  \<comment> \<open>the loop of \<open>unquote\<close> over the text after the opening quote, then the check
      of the terminating quote; the result is \<open>(out, rem)\<close>\<close>
  "unquote_chars quote inp buf =
     (case inp of
        [] \<Rightarrow> Inl ErrSyntax
      | c # rest \<Rightarrow>
          if c = quote then Inr (buf, rest)
          else
            (case UnquoteChar inp quote of
               Inl e \<Rightarrow> Inl ErrSyntax
             | Inr (r, multibyte, rem) \<Rightarrow>
                 if c = CHR 0x0A then Inl ErrSyntax
                 else
                   let buf' = (if r < 0x80 \<or> \<not> multibyte then buf @ [byte r]
                               else AppendRune buf r)
                   in
                     if quote = squote then
                       (case rem of
                          [] \<Rightarrow> Inl ErrSyntax
                        | q # rest' \<Rightarrow> if q = quote then Inr (buf', rest') else Inl ErrSyntax)
                     else unquote_chars quote rem buf'))"
  by pat_completeness auto
termination
  by (relation "measure (\<lambda>(q, inp, buf). length inp)") (auto dest: UnquoteChar_shorter)

declare unquote_chars.simps [simp del]

definition Unquote :: "string \<Rightarrow> error + string" where
  "Unquote inp =
     (if length inp < 2 then Inl ErrSyntax
      else
        let quote = hd inp in
        if quote \<notin> set (tl inp) then Inl ErrSyntax
        else if quote = CHR 0x60 then
          (let body = takeWhile (\<lambda>c. c \<noteq> quote) (tl inp) in
           if drop (length body + 2) inp \<noteq> [] then Inl ErrSyntax
           else Inr (filter (\<lambda>c. c \<noteq> CHR 0x0D) body))
        else if quote = dquote \<or> quote = squote then
          (case unquote_chars quote (tl inp) [] of
             Inl e \<Rightarrow> Inl e
           | Inr (out, rem) \<Rightarrow> if rem \<noteq> [] then Inl ErrSyntax else Inr out)
        else Inl ErrSyntax)"

subsection \<open>Regular expressions (package \<open>regexp\<close>)\<close>

text \<open>
  The program uses compiled expressions in two ways. The signatures of the database
  are arbitrary patterns, of which only \<open>Match\<close> is asked: such an expression is the
  predicate \<open>Match\<close> computes, and the compiler is a parameter \<open>Compile\<close> of the model.
  The four expressions of the normalizer are fixed, and their matches are replaced: each
  is written out as the function that gives, for the rest of the input, the length of
  the match that starts at its first byte, if there is one.

  All four begin with an ASCII byte and consume only ASCII bytes or any byte, so the
  rune-wise search of the library finds the same matches as a byte-wise one. None has
  an alternative. In the first, the spaces are followed by a byte that is no space, so
  a position has at most one match; in the second the lazy \<open>.*?\<close> stops at the first
  \<open>*/\<close>; in the last two the greedy repetition ends the expression and takes as many
  digits as it can. So the match the library prefers at a position is the one written
  here.
\<close>

type_synonym Matcher = "string \<Rightarrow> bool"

type_synonym Regexp = "string \<Rightarrow> nat option"

definition is_quote :: "char \<Rightarrow> bool" where
  \<comment> \<open>the class \<open>[\'"]\<close>\<close>
  "is_quote c = (c = squote \<or> c = dquote)"

definition is_space :: "char \<Rightarrow> bool" where
  \<comment> \<open>the class \<open>\s\<close>, which is \<open>[\t\n\f\r ]\<close>\<close>
  "is_space c = (c \<in> {CHR 0x09, CHR 0x0A, CHR 0x0C, CHR 0x0D, CHR 0x20})"

definition is_hex :: "char \<Rightarrow> bool" where
  \<comment> \<open>the class \<open>[a-fA-F0-9]\<close>\<close>
  "is_hex c = (c \<in> set ''abcdefABCDEF0123456789'')"

definition is_digit :: "char \<Rightarrow> bool" where
  \<comment> \<open>the class \<open>[0-9]\<close>\<close>
  "is_digit c = (c \<in> set ''0123456789'')"

definition re_concat :: Regexp where
  \<comment> \<open>\<open>(?si:[\'"]\s*?\.\s*?[\'"])\<close>\<close>
  "re_concat s =
     (case s of
        [] \<Rightarrow> None
      | q # r \<Rightarrow>
          if \<not> is_quote q then None
          else
            (case dropWhile is_space r of
               [] \<Rightarrow> None
             | d # r' \<Rightarrow>
                 if d \<noteq> CHR ''.'' then None
                 else
                   (case dropWhile is_space r' of
                      [] \<Rightarrow> None
                    | q' # r'' \<Rightarrow>
                        if is_quote q' then Some (length s - length r'') else None)))"

fun find_close :: "string \<Rightarrow> nat option" where
  \<comment> \<open>\<open>.*?\*/\<close>: the number of bytes up to the end of the first \<open>*/\<close>\<close>
  "find_close (a # b # r) =
     (if a = CHR ''*'' \<and> b = CHR ''/'' then Some 2
      else map_option Suc (find_close (b # r)))"
| "find_close r = None"

definition re_comment :: Regexp where
  \<comment> \<open>\<open>(?si:/\*.*?\*/)\<close>\<close>
  "re_comment s =
     (case s of
        a # b # r \<Rightarrow>
          if a = CHR ''/'' \<and> b = CHR ''*'' then map_option (\<lambda>n. n + 2) (find_close r)
          else None
      | _ \<Rightarrow> None)"

definition re_hex :: Regexp where
  \<comment> \<open>\<open>(?i:\\x([a-fA-F0-9]{1,2}))\<close>; without regard to case the \<open>x\<close> is \<open>x\<close> or \<open>X\<close>\<close>
  "re_hex s =
     (case s of
        b # x # h # r \<Rightarrow>
          if b = bslash \<and> (x = CHR ''x'' \<or> x = CHR ''X'') \<and> is_hex h then
            Some (3 + length (takeWhile is_hex (take 1 r)))
          else None
      | _ \<Rightarrow> None)"

definition re_octal :: Regexp where
  \<comment> \<open>\<open>\\([0-9]{1,3})\<close>\<close>
  "re_octal s =
     (case s of
        b # d # r \<Rightarrow>
          if b = bslash \<and> is_digit d then
            Some (2 + length (takeWhile is_digit (take 2 r)))
          else None
      | _ \<Rightarrow> None)"

text \<open>
  The replacement goes through the input from the left: where the expression matches, the
  match is replaced and the search goes on after it; elsewhere the byte is copied. The
  library also replaces the matches of the empty string; an expression that could match
  it is left out of this model, and the four expressions cannot (each of their matches
  has two bytes or more, as proved below), so the case \<open>Some 0\<close> never arises.
\<close>

function ReplaceAllFunc :: "Regexp \<Rightarrow> string \<Rightarrow> (string \<Rightarrow> string) \<Rightarrow> string" where
  \<comment> \<open>\<open>re.ReplaceAllFunc(src, repl)\<close>: the successive matches, leftmost first and not
      overlapping, are replaced by \<open>repl\<close> of the matched bytes\<close>
  "ReplaceAllFunc re [] repl = []"
| "ReplaceAllFunc re (c # cs) repl =
     (case re (c # cs) of
        Some (Suc n) \<Rightarrow> repl (take (Suc n) (c # cs)) @ ReplaceAllFunc re (drop n cs) repl
      | _ \<Rightarrow> c # ReplaceAllFunc re cs repl)"
  by pat_completeness auto
termination
  by (relation "measure (\<lambda>(re, src, repl). length src)") auto

definition ReplaceAll :: "Regexp \<Rightarrow> string \<Rightarrow> string \<Rightarrow> string" where
  \<comment> \<open>\<open>re.ReplaceAll(src, repl)\<close> for a replacement text without \<open>$\<close>, such as the
      empty one the program passes\<close>
  "ReplaceAll re src repl = ReplaceAllFunc re src (\<lambda>m. repl)"

section \<open>The program (\<open>rigel.go\<close>)\<close>

subsection \<open>Data\<close>

definition READER_BLOCKSIZE :: int where
  "READER_BLOCKSIZE = 512 * 1024"

definition MAXFILESIZE :: int where
  "MAXFILESIZE = 2 * 1024 * 1024"

record Signature =
  Id_attr :: int
  Title :: string
  Type :: string
  Signature :: string
  Regexp :: "Matcher option"

record Database =
  Signatures :: "Signature list"

type_synonym FileExtensions = "string set"

text \<open>The package-level variables that the flags set.\<close>

record globals =
  DBFILE :: string
  ROOTDIR :: string
  MAXPROCS :: int
  FFILTER :: FileExtensions
  SKIPSOFT :: bool

text \<open>
  What the program does to the outside is a list of events, in the order it does them:
  lines on standard output and on the log, the operations on the file it scans, the
  signatures it tests, the paths the walk sends to the workers and the closing of
  that channel. \<open>Panic\<close> is a run-time panic of the Go program.
\<close>

datatype fileop = Open | Read | Seek | Stat | ReadAll | Close

datatype event =
    Stdout string
  | Logged string
  | Op fileop
  | Test int
  | Send string
  | CloseChan
  | Panic

text \<open>
  An opened file, as the results of the calls \<open>checkFile\<close> makes on it: \<open>f.Read(head)\<close>
  (the bytes \<open>head[:n]\<close>, or the error), \<open>f.Seek\<close>, \<open>f.Stat\<close> (the size) and
  \<open>ioutil.ReadAll(f)\<close>. An error is its message.
\<close>

record File =
  Read_head :: "string + string"
  Seek_start :: "string option"
  Stat_size :: "string + int"
  ReadAll_bytes :: "string + string"

text \<open>
  The library and the operating system behind \<open>readDatabase\<close>: \<open>http.Get\<close> and
  \<open>os.Open\<close> give the bytes of the document or fail, \<open>xml.Decoder.Decode\<close> fills a
  \<open>Database\<close> or fails, \<open>regexp.Compile\<close> compiles a pattern or fails.
\<close>

record Library =
  http_Get :: "string \<Rightarrow> error + string"
  os_Open :: "string \<Rightarrow> error + string"
  xml_Decode :: "string \<Rightarrow> error + Database"
  regexp_Compile :: "string \<Rightarrow> error + Matcher"

subsection \<open>\<open>FileExtensions.Set\<close>\<close>

definition Set_entry :: "FileExtensions \<Rightarrow> string \<Rightarrow> FileExtensions" where
  \<comment> \<open>the body of the loop of \<open>Set\<close>\<close>
  "Set_entry li s0 =
     (let s = TrimSpace s0 in
      if length s = 0 then li
      else if hd s = CHR ''.'' then insert s li
      else insert (CHR ''.'' # s) li)"

definition Set :: "FileExtensions \<Rightarrow> string \<Rightarrow> error option \<times> FileExtensions" where
  \<comment> \<open>the result is the error returned and the map afterwards\<close>
  "Set li v =
     (if li \<noteq> {} then (Some FlagAlreadySet, li)
      else (None, foldl Set_entry li (Split v (CHR '',''))))"

subsection \<open>\<open>unquoteStr\<close>, \<open>compileNormalizers\<close> and the normalization of \<open>checkFile\<close>\<close>

definition unquoteStr :: "string \<Rightarrow> string" where
  "unquoteStr s =
     (case Unquote ([squote] @ s @ [squote]) of
        Inl err \<Rightarrow> []
      | Inr u \<Rightarrow> u)"

definition compileNormalizers :: "error + Regexp list" where
  \<comment> \<open>the four expressions compile, so the error of \<open>regexp.Compile\<close> is never returned\<close>
  "compileNormalizers = Inr [re_concat, re_comment, re_hex, re_octal]"

definition normalize_content :: "Regexp list \<Rightarrow> string \<Rightarrow> string" where
  \<comment> \<open>the two loops under \<open>// Normalize content\<close>, over \<open>nr[:2]\<close> and \<open>nr[2:]\<close>\<close>
  "normalize_content nr c =
     foldl (\<lambda>c r. ReplaceAllFunc r c unquoteStr)
       (foldl (\<lambda>c r. ReplaceAll r c []) c (take 2 nr))
       (drop 2 nr)"

subsection \<open>\<open>checkFile\<close> and \<open>worker\<close>\<close>

definition nl :: string where
  "nl = [CHR 0x0A]"

definition warning :: "string \<Rightarrow> string \<Rightarrow> string" where
  \<comment> \<open>\<open>"[warning] %s: %s\n"\<close> of an error and a path\<close>
  "warning err path = ''[warning] '' @ err @ '': '' @ path @ nl"

fun test_signatures :: "Signature list \<Rightarrow> string \<Rightarrow> string \<Rightarrow> event list" where
  \<comment> \<open>the loop \<open>for _, s := range signatures\<close>; a nil \<open>s.Regexp\<close> panics\<close>
  "test_signatures [] c path = []"
| "test_signatures (s # ss) c path =
     (case Regexp s of
        None \<Rightarrow> [Panic]
      | Some re \<Rightarrow>
          Test (Id_attr s) #
          (if re c then
             [Stdout (''Matched: '' @ Title s @ '' (signature id = '' @ fmt_d (Id_attr s)
                        @ ''): '' @ path @ nl)]
           else test_signatures ss c path))"

definition check_content ::
  "File \<Rightarrow> string \<Rightarrow> Signature list \<Rightarrow> Regexp list \<Rightarrow> event list" where
  \<comment> \<open>\<open>checkFile\<close> from \<open>f.Stat()\<close> on\<close>
  "check_content f path signatures nr =
     Op Stat #
     (case Stat_size f of
        Inl err \<Rightarrow> [Logged (warning err path)]
      | Inr sz \<Rightarrow>
          if sz > MAXFILESIZE then
            [Logged (''[warning] file size more than '' @ fmt_d (MAXFILESIZE div 2 ^ (10 * 2))
                       @ ''M: '' @ path @ nl)]
          else
            Op ReadAll #
            (case ReadAll_bytes f of
               Inl err \<Rightarrow> [Logged (warning err path)]
             | Inr c \<Rightarrow>
                 if length nr < 2 then [Panic]
                 else test_signatures signatures (normalize_content nr c) path))"

definition check_opened ::
  "globals \<Rightarrow> (string \<Rightarrow> string) \<Rightarrow> File \<Rightarrow> string \<Rightarrow> Signature list \<Rightarrow> Regexp list
     \<Rightarrow> event list" where
  \<comment> \<open>\<open>checkFile\<close> between the opening of the file and its deferred closing; the second
      argument is \<open>http.DetectContentType\<close>\<close>
  "check_opened g DetectContentType f path signatures nr =
     (if FFILTER g = {} then
        Op Read #
        (if (case Read_head f of
               Inl err \<Rightarrow> False
             | Inr head \<Rightarrow>
                 (let mimeType = DetectContentType head in
                  \<not> HasPrefix mimeType ''text/'' \<and> \<not> HasSuffix mimeType ''/xml''))
         then []
         else
           Op Seek #
           (case Seek_start f of
              Some err \<Rightarrow> [Logged (warning err path)]
            | None \<Rightarrow> check_content f path signatures nr))
      else check_content f path signatures nr)"

definition checkFile ::
  "globals \<Rightarrow> (string \<Rightarrow> string) \<Rightarrow> (string \<Rightarrow> string + File) \<Rightarrow> string
     \<Rightarrow> Signature list \<Rightarrow> Regexp list \<Rightarrow> event list" where
  \<comment> \<open>the third argument is \<open>os.Open\<close>\<close>
  "checkFile g DetectContentType os_open path signatures nr =
     Op Open #
     (case os_open path of
        Inl err \<Rightarrow> [Logged (warning err path)]
      | Inr f \<Rightarrow> check_opened g DetectContentType f path signatures nr @ [Op Close])"

definition worker ::
  "globals \<Rightarrow> (string \<Rightarrow> string) \<Rightarrow> (string \<Rightarrow> string + File) \<Rightarrow> Signature list
     \<Rightarrow> Regexp list \<Rightarrow> string list \<Rightarrow> event list" where
  \<comment> \<open>one worker on the paths it receives\<close>
  "worker g DetectContentType os_open sigs nr cPaths =
     concat (map (\<lambda>p. checkFile g DetectContentType os_open p sigs nr) cPaths)"

subsection \<open>\<open>readDatabase\<close>\<close>

fun compile_signatures ::
  "(string \<Rightarrow> error + Matcher) \<Rightarrow> Signature list \<Rightarrow> error + Signature list" where
  \<comment> \<open>the loop \<open>for i, sig := range db.Signatures\<close>\<close>
  "compile_signatures Compile [] = Inr []"
| "compile_signatures Compile (sig # sigs) =
     (case Compile (Signature sig) of
        Inl err \<Rightarrow> Inl (FailedToCompile (Id_attr sig) (Signature sig) err)
      | Inr r \<Rightarrow>
          (case compile_signatures Compile sigs of
             Inl e \<Rightarrow> Inl e
           | Inr sigs' \<Rightarrow> Inr (sig\<lparr>Regexp := Some r\<rparr> # sigs')))"

definition load_document :: "Library \<Rightarrow> globals \<Rightarrow> string \<Rightarrow> error + Database" where
  \<comment> \<open>the first statement of \<open>readDatabase\<close>: fetching or opening the document and
      decoding it into \<open>db\<close>\<close>
  "load_document L g path =
     (if HasPrefix path ''http://'' \<or> HasPrefix path ''https://'' then
        (case http_Get L (DBFILE g) of
           Inl err \<Rightarrow> Inl (CannotFetch (DBFILE g) err)
         | Inr body \<Rightarrow> xml_Decode L body)
      else
        (case os_Open L path of
           Inl err \<Rightarrow> Inl err
         | Inr f \<Rightarrow> xml_Decode L f))"

definition readDatabase :: "Library \<Rightarrow> globals \<Rightarrow> string \<Rightarrow> error + Database" where
  "readDatabase L g path =
     (case load_document L g path of
        Inl err \<Rightarrow> Inl err
      | Inr db \<Rightarrow>
          if length (Signatures db) = 0 then Inl NoSignaturesLoaded
          else
            (case compile_signatures (regexp_Compile L) (Signatures db) of
               Inl err \<Rightarrow> Inl err
             | Inr sigs \<Rightarrow>
                 if SKIPSOFT g then
                   Inr \<lparr>Signatures = filter (\<lambda>sig. Type sig = ''c'') sigs\<rparr>
                 else Inr (db\<lparr>Signatures := sigs\<rparr>)))"

subsection \<open>\<open>walk\<close>\<close>

text \<open>
  \<open>filepath.Walk\<close> calls \<open>walkFn\<close> once for every file and directory under the root
  it can name, with the description of the entry or with the error that kept it from
  reading it. The walk is the list of these calls; it goes on while \<open>walkFn\<close> returns
  \<open>nil\<close> and returns the first error \<open>walkFn\<close> returns.
\<close>

datatype visit =
    Entry string bool
  | Failure string string

fun walkFn :: "globals \<Rightarrow> visit \<Rightarrow> event list \<times> string option" where
  \<comment> \<open>the events and the error returned\<close>
  "walkFn g (Failure path err) = ([Logged (''[fatal] walk error: '' @ err @ nl)], None)"
| "walkFn g (Entry path isDir) =
     (if isDir then ([], None)
      else if Ext path \<notin> FFILTER g \<and> FFILTER g \<noteq> {} then ([], None)
      else ([Send path], None))"

fun Walk :: "visit list \<Rightarrow> (visit \<Rightarrow> event list \<times> string option) \<Rightarrow> event list \<times> string option" where
  "Walk [] fn = ([], None)"
| "Walk (v # vs) fn =
     (case fn v of
        (es, Some err) \<Rightarrow> (es, Some err)
      | (es, None) \<Rightarrow> (case Walk vs fn of (es', r) \<Rightarrow> (es @ es', r)))"

definition walk :: "globals \<Rightarrow> (string \<Rightarrow> visit list) \<Rightarrow> string \<Rightarrow> event list" where
  \<comment> \<open>what the goroutine of \<open>walk\<close> does; the second argument is the file system, as the
      visits of a walk from a root\<close>
  "walk g tree rootdir =
     (case Walk (tree rootdir) (walkFn g) of
        (es, r) \<Rightarrow>
          es @ (case r of
                  Some err \<Rightarrow> [Logged (''[fatal] walk error: '' @ err @ nl)]
                | None \<Rightarrow> [])
             @ [CloseChan])"

subsection \<open>Reading a list of events\<close>

fun stdout_lines :: "event list \<Rightarrow> string list" where
  "stdout_lines [] = []"
| "stdout_lines (Stdout l # es) = l # stdout_lines es"
| "stdout_lines (e # es) = stdout_lines es"

fun log_lines :: "event list \<Rightarrow> string list" where
  "log_lines [] = []"
| "log_lines (Logged l # es) = l # log_lines es"
| "log_lines (e # es) = log_lines es"

fun tested :: "event list \<Rightarrow> int list" where
  "tested [] = []"
| "tested (Test i # es) = i # tested es"
| "tested (e # es) = tested es"

definition matches :: "Signature \<Rightarrow> string \<Rightarrow> bool" where
  \<comment> \<open>the signature has a matcher and it matches\<close>
  "matches s c = (case Regexp s of None \<Rightarrow> False | Some re \<Rightarrow> re c)"

definition compiled :: "(string \<Rightarrow> error + Matcher) \<Rightarrow> Signature \<Rightarrow> Signature" where
  \<comment> \<open>the signature with the matcher of its pattern, as \<open>db.Signatures[i].Regexp = r\<close>
      leaves it\<close>
  "compiled Compile s =
     s\<lparr>Regexp := (case Compile (Signature s) of Inl err \<Rightarrow> None | Inr r \<Rightarrow> Some r)\<rparr>"

definition plain :: "string \<Rightarrow> bool" where
  \<comment> \<open>no byte at which one of the four expressions can begin a match\<close>
  "plain s = list_all (\<lambda>c. \<not> is_quote c \<and> c \<noteq> CHR ''/'' \<and> c \<noteq> bslash) s"

subsection \<open>A small world for the examples\<close>

text \<open>
  The examples need a compiler of patterns and a file system. \<open>example_Compile\<close> is
  right on the three kinds of pattern the examples use: the pattern
  \<open>eval\s*\(\$_\<close> of the specification's end-to-end test, the pattern \<open>(\<close>, which
  \<open>regexp.Compile\<close> rejects, and patterns without operators, which match the texts
  that contain them.
\<close>

fun Contains :: "string \<Rightarrow> string \<Rightarrow> bool" where
  "Contains [] p = (p = [])"
| "Contains (c # cs) p = (take (length p) (c # cs) = p \<or> Contains cs p)"

definition webshell_pattern :: string where
  "webshell_pattern = ''eval'' @ [bslash] @ ''s*'' @ [bslash] @ ''('' @ [bslash] @ ''$_''"

definition webshell_at :: "string \<Rightarrow> bool" where
  "webshell_at s = (take 4 s = ''eval'' \<and> take 3 (dropWhile is_space (drop 4 s)) = ''($_'')"

fun re_webshell :: Matcher where
  "re_webshell [] = False"
| "re_webshell (c # cs) = (webshell_at (c # cs) \<or> re_webshell cs)"

definition example_Compile :: "string \<Rightarrow> error + Matcher" where
  "example_Compile p =
     (if p = webshell_pattern then Inr re_webshell
      else if p = ''('' then Inl (LibError ''error parsing regexp: missing closing ): `(`'')
      else Inr (\<lambda>c. Contains c p))"

definition regular_file :: "string \<Rightarrow> File" where
  \<comment> \<open>a readable regular file with this content: reading at the end of the file is the
      error \<open>EOF\<close>\<close>
  "regular_file content =
     \<lparr>Read_head = (if content = [] then Inl ''EOF'' else Inr (take 512 content)),
      Seek_start = None,
      Stat_size = Inr (int (length content)),
      ReadAll_bytes = Inr content\<rparr>"

definition shell_php :: string where
  "shell_php = ''eval($_POST['x'])''"

definition example_fs :: "string \<Rightarrow> string + File" where
  "example_fs path =
     (if path = ''shell.php'' then Inr (regular_file shell_php)
      else if path = ''empty.php'' then Inr (regular_file [])
      else Inl (''open '' @ path @ '': no such file or directory''))"

definition example_sniff :: "string \<Rightarrow> string" where
  \<comment> \<open>what \<open>http.DetectContentType\<close> answers on the heads of the examples\<close>
  "example_sniff head =
     (if take 3 head = [CHR 0xFF, CHR 0xD8, CHR 0xFF] then ''image/jpeg''
      else ''text/plain; charset=utf-8'')"

definition example_globals :: globals where
  "example_globals =
     \<lparr>DBFILE = ''malware_db.xml'', ROOTDIR = ''.'', MAXPROCS = 1, FFILTER = {''.php''},
      SKIPSOFT = False\<rparr>"

definition WebShell :: Signature where
  "WebShell =
     \<lparr>Id_attr = 1, Title = ''WebShell'', Type = ''c'', Signature = webshell_pattern,
      Regexp = Some re_webshell\<rparr>"

definition example_nr :: "Regexp list" where
  "example_nr = [re_concat, re_comment, re_hex, re_octal]"

definition Decoy :: Signature where
  "Decoy =
     \<lparr>Id_attr = 7, Title = ''Base64'', Type = ''s'', Signature = ''base64_decode'',
      Regexp = Some (\<lambda>c. Contains c ''base64_decode'')\<rparr>"

definition Late :: Signature where
  "Late =
     \<lparr>Id_attr = 9, Title = ''PostData'', Type = ''c'', Signature = ''POST'',
      Regexp = Some (\<lambda>c. Contains c ''POST'')\<rparr>"

definition raw :: "int \<Rightarrow> string \<Rightarrow> string \<Rightarrow> string \<Rightarrow> Signature" where
  \<comment> \<open>a signature as the decoder leaves it, without matcher\<close>
  "raw i t sev p = \<lparr>Id_attr = i, Title = t, Type = sev, Signature = p, Regexp = None\<rparr>"

definition example_Library :: Library where
  \<comment> \<open>every document is named by its own text; there is no network\<close>
  "example_Library =
     \<lparr>http_Get = (\<lambda>url. Inl (LibError ''no network'')),
      os_Open = (\<lambda>path. Inr path),
      xml_Decode = (\<lambda>doc.
        if doc = ''three.xml'' then
          Inr \<lparr>Signatures = [raw 1 ''Base64'' ''s'' ''base64_decode'',
                               raw 2 ''WebShell'' ''c'' webshell_pattern,
                               raw 3 ''PostData'' ''c'' ''POST'']\<rparr>
        else if doc = ''broken.xml'' then
          Inr \<lparr>Signatures = [raw 1 ''Base64'' ''s'' ''base64_decode'',
                               raw 2 ''Unclosed'' ''c'' ''('',
                               raw 3 ''PostData'' ''c'' ''POST'']\<rparr>
        else if doc = ''soft.xml'' then
          Inr \<lparr>Signatures = [raw 1 ''Base64'' ''s'' ''base64_decode'']\<rparr>
        else if doc = ''none.xml'' then Inr \<lparr>Signatures = []\<rparr>
        else Inl (LibError ''EOF'')),
      regexp_Compile = example_Compile\<rparr>"

definition skip_soft_globals :: globals where
  "skip_soft_globals = example_globals\<lparr>SKIPSOFT := True\<rparr>"

definition example_tree :: "string \<Rightarrow> visit list" where
  "example_tree root =
     (if root = ''www'' then
        [Entry ''www'' True,
         Entry ''www/logo.png'' False,
         Failure ''www/private'' ''open www/private: permission denied'',
         Entry ''www/shell.php'' False]
      else [Failure root (''lstat '' @ root @ '': no such file or directory'')])"

definition padded :: "string \<Rightarrow> nat \<Rightarrow> string" where
  \<comment> \<open>a content of \<open>n\<close> bytes that begins with \<open>head\<close>\<close>
  "padded head n = take n head @ replicate (n - length head) (CHR ''A'')"

definition jpeg_magic :: string where
  "jpeg_magic = [CHR 0xFF, CHR 0xD8, CHR 0xFF, CHR 0xE0]"

definition big_files :: "string \<Rightarrow> string + File" where
  "big_files path =
     (if path = ''photo.jpg'' then Inr (regular_file (padded jpeg_magic (nat MAXFILESIZE + 1)))
      else if path = ''small.jpg'' then Inr (regular_file (padded jpeg_magic (nat MAXFILESIZE)))
      else if path = ''big.php'' then Inr (regular_file (padded ''<?php'' (nat MAXFILESIZE + 1)))
      else if path = ''limit.php'' then Inr (regular_file (padded ''<?php'' (nat MAXFILESIZE)))
      else Inl (''open '' @ path @ '': no such file or directory''))"

definition no_filter :: globals where
  "no_filter = example_globals\<lparr>FFILTER := {}\<rparr>"

definition is_octal :: "char \<Rightarrow> bool" where
  "is_octal c = (c \<in> set ''01234567'')"

definition bad_octal :: string where
  "bad_octal = bslash # ''400''"

definition obfuscated :: string where
  \<comment> \<open>\<open>ev\400al($_POST[0])\<close>: the octal escape is out of range\<close>
  "obfuscated = ''ev'' @ bad_octal @ ''al($_POST[0])''"

definition obfuscated_fs :: "string \<Rightarrow> string + File" where
  "obfuscated_fs path =
     (if path = ''a.php'' then Inr (regular_file obfuscated)
      else Inl (''open '' @ path @ '': no such file or directory''))"

definition with_dot :: "string \<Rightarrow> string" where
  \<comment> \<open>an extension that is not empty, with its leading dot\<close>
  "with_dot s = (if hd s = CHR ''.'' then s else CHR ''.'' # s)"

definition dotted :: "string \<Rightarrow> bool" where
  "dotted e = (e \<noteq> [] \<and> hd e = CHR ''.'')"

definition sniff_binary :: "string \<Rightarrow> string" where
  \<comment> \<open>a classifier that takes every head for binary data\<close>
  "sniff_binary head = ''application/octet-stream''"

definition Anything :: Signature where
  \<comment> \<open>the empty pattern matches every content\<close>
  "Anything =
     \<lparr>Id_attr = 4, Title = ''Anything'', Type = ''s'', Signature = [],
      Regexp = Some (\<lambda>c. Contains c [])\<rparr>"

section \<open>The content normalizer\<close>

lemma normalize_content_steps:
  "normalize_content [r1, r2, r3, r4] c =
     ReplaceAllFunc r4 (ReplaceAllFunc r3 (ReplaceAll r2 (ReplaceAll r1 c []) []) unquoteStr)
       unquoteStr"
  by (simp add: normalize_content_def)

lemma vector_concat:
  "normalize_content [re_concat, re_comment, re_hex, re_octal] (squote # ''ev'.'al'' @ [squote])
     = squote # ''eval'' @ [squote]"
  by code_simp

lemma vector_comment:
  "normalize_content [re_concat, re_comment, re_hex, re_octal] ''/* comment */payload''
     = ''payload''"
  by code_simp

lemma vector_hex:
  "normalize_content [re_concat, re_comment, re_hex, re_octal]
     (bslash # ''x65'' @ bslash # ''x76'' @ bslash # ''x61'' @ bslash # ''x6c'') = ''eval''"
  by code_simp

lemma vector_octal:
  "normalize_content [re_concat, re_comment, re_hex, re_octal]
     (bslash # ''145'' @ bslash # ''166'' @ bslash # ''141'' @ bslash # ''154'') = ''eval''"
  by code_simp

lemma vector_decoded_quotes:
  "normalize_content [re_concat, re_comment, re_hex, re_octal]
     (''ev'' @ bslash # ''x27.'' @ bslash # ''x27al'') = ''ev'.'al''"
  by code_simp

text \<open>
  Claim C1. \<open>compileNormalizers\<close> returns the four expressions in the order
  quote-dot-quote, block comment, hex escape, octal escape; the normalization of
  \<open>checkFile\<close> deletes the matches of the first, then those of the second, then replaces
  the matches of the third by their decoding, then those of the fourth, for every
  content \<open>c\<close>. The four vectors hold: \<open>'ev'.'al'\<close> becomes \<open>'eval'\<close>,
  \<open>/* comment */payload\<close> becomes \<open>payload\<close>, \<open>\x65\x76\x61\x6c\<close> becomes \<open>eval\<close> and
  \<open>\145\166\141\154\<close> becomes \<open>eval\<close>. The order shows on \<open>ev\x27.\x27al\<close>: the quotes
  appear only in step 3, after the concatenations were deleted, and \<open>ev'.'al\<close> stays.
\<close>

theorem normalizer_order_and_vectors:
  "compileNormalizers = Inr [re_concat, re_comment, re_hex, re_octal]
   \<and> normalize_content [re_concat, re_comment, re_hex, re_octal] c =
       ReplaceAllFunc re_octal
         (ReplaceAllFunc re_hex
            (ReplaceAll re_comment (ReplaceAll re_concat c []) []) unquoteStr)
         unquoteStr
   \<and> normalize_content [re_concat, re_comment, re_hex, re_octal]
         (squote # ''ev'.'al'' @ [squote]) = squote # ''eval'' @ [squote]
   \<and> normalize_content [re_concat, re_comment, re_hex, re_octal] ''/* comment */payload''
         = ''payload''
   \<and> normalize_content [re_concat, re_comment, re_hex, re_octal]
         (bslash # ''x65'' @ bslash # ''x76'' @ bslash # ''x61'' @ bslash # ''x6c'') = ''eval''
   \<and> normalize_content [re_concat, re_comment, re_hex, re_octal]
         (bslash # ''145'' @ bslash # ''166'' @ bslash # ''141'' @ bslash # ''154'') = ''eval''
   \<and> normalize_content [re_concat, re_comment, re_hex, re_octal]
         (''ev'' @ bslash # ''x27.'' @ bslash # ''x27al'') = ''ev'.'al''"
  using normalize_content_steps [of re_concat re_comment re_hex re_octal c]
    vector_concat vector_comment vector_hex vector_octal vector_decoded_quotes
  by (simp only: compileNormalizers_def simp_thms)

section \<open>\<open>checkFile\<close>: the first matching signature\<close>

lemma stdout_lines_append [simp]: "stdout_lines (xs @ ys) = stdout_lines xs @ stdout_lines ys"
  by (induction xs rule: stdout_lines.induct) auto

lemma tested_append [simp]: "tested (xs @ ys) = tested xs @ tested ys"
  by (induction xs rule: tested.induct) auto

lemma log_lines_append [simp]: "log_lines (xs @ ys) = log_lines xs @ log_lines ys"
  by (induction xs rule: log_lines.induct) auto

lemma test_signatures_at_most_one: "length (stdout_lines (test_signatures sigs c path)) \<le> 1"
  by (induction sigs) (auto split: option.splits)

lemma test_signatures_stdout:
  "\<forall>s\<in>set sigs. Regexp s \<noteq> None \<Longrightarrow>
   stdout_lines (test_signatures sigs c path) =
     (case find (\<lambda>s. matches s c) sigs of
        None \<Rightarrow> []
      | Some s \<Rightarrow> [''Matched: '' @ Title s @ '' (signature id = '' @ fmt_d (Id_attr s)
                     @ ''): '' @ path @ nl])"
  by (induction sigs) (auto simp: matches_def split: option.splits)

lemma test_signatures_tested:
  "\<forall>s\<in>set sigs. Regexp s \<noteq> None \<Longrightarrow>
   tested (test_signatures sigs c path) =
     map Id_attr (takeWhile (\<lambda>s. \<not> matches s c) sigs)
       @ (case find (\<lambda>s. matches s c) sigs of None \<Rightarrow> [] | Some s \<Rightarrow> [Id_attr s])"
  by (induction sigs) (auto simp: matches_def split: option.splits)

lemma check_content_scanned:
  "Op ReadAll \<in> set (check_content f path sigs nr) \<Longrightarrow> ReadAll_bytes f = Inr c \<Longrightarrow>
   2 \<le> length nr \<Longrightarrow>
   check_content f path sigs nr
     = [Op Stat, Op ReadAll] @ test_signatures sigs (normalize_content nr c) path"
  by (auto simp: check_content_def split: sum.splits if_splits)

lemma check_content_unscanned:
  "Op ReadAll \<notin> set (check_content f path sigs nr) \<Longrightarrow>
   stdout_lines (check_content f path sigs nr) = [] \<and> tested (check_content f path sigs nr) = []"
  by (auto simp: check_content_def split: sum.splits if_splits)

lemma check_content_at_most_one: "length (stdout_lines (check_content f path sigs nr)) \<le> 1"
  using test_signatures_at_most_one
  by (auto simp: check_content_def split: sum.splits)

lemma check_opened_cases:
  "check_opened g D f path sigs nr = [Op Read]
   \<or> (\<exists>err. check_opened g D f path sigs nr = [Op Read, Op Seek, Logged (warning err path)])
   \<or> check_opened g D f path sigs nr = [Op Read, Op Seek] @ check_content f path sigs nr
   \<or> check_opened g D f path sigs nr = check_content f path sigs nr"
  by (auto simp: check_opened_def Let_def split: sum.splits option.splits)

lemma checkFile_cases:
  "(\<exists>err. checkFile g D os path sigs nr = [Op Open, Logged (warning err path)])
   \<or> checkFile g D os path sigs nr = [Op Open, Op Read, Op Close]
   \<or> (\<exists>err. checkFile g D os path sigs nr =
          [Op Open, Op Read, Op Seek, Logged (warning err path), Op Close])
   \<or> (\<exists>f. os path = Inr f \<and>
          (checkFile g D os path sigs nr =
             [Op Open, Op Read, Op Seek] @ check_content f path sigs nr @ [Op Close]
           \<or> checkFile g D os path sigs nr = [Op Open] @ check_content f path sigs nr @ [Op Close]))"
proof (cases "os path")
  case (Inl err)
  then show ?thesis by (auto simp: checkFile_def)
next
  case (Inr f)
  with check_opened_cases [of g D f path sigs nr] show ?thesis
    by (auto simp: checkFile_def)
qed

lemma checkFile_at_most_one: "length (stdout_lines (checkFile g D os path sigs nr)) \<le> 1"
  using checkFile_cases [of g D os path sigs nr] check_content_at_most_one
  by auto

lemma checkFile_unscanned:
  "Op ReadAll \<notin> set (checkFile g D os path sigs nr) \<Longrightarrow>
   stdout_lines (checkFile g D os path sigs nr) = [] \<and> tested (checkFile g D os path sigs nr) = []"
  using checkFile_cases [of g D os path sigs nr] check_content_unscanned
  by auto

lemma checkFile_scanned:
  assumes "os path = Inr f" and "Op ReadAll \<in> set (checkFile g D os path sigs nr)"
    and "ReadAll_bytes f = Inr c" and "2 \<le> length nr"
  shows "stdout_lines (checkFile g D os path sigs nr)
           = stdout_lines (test_signatures sigs (normalize_content nr c) path)"
    and "tested (checkFile g D os path sigs nr)
           = tested (test_signatures sigs (normalize_content nr c) path)"
proof -
  from assms(1,2) checkFile_cases [of g D os path sigs nr]
  have r: "Op ReadAll \<in> set (check_content f path sigs nr)"
    and "checkFile g D os path sigs nr =
             [Op Open, Op Read, Op Seek] @ check_content f path sigs nr @ [Op Close]
           \<or> checkFile g D os path sigs nr = [Op Open] @ check_content f path sigs nr @ [Op Close]"
    by auto
  moreover note check_content_scanned [OF r assms(3,4)]
  ultimately show "stdout_lines (checkFile g D os path sigs nr)
           = stdout_lines (test_signatures sigs (normalize_content nr c) path)"
    and "tested (checkFile g D os path sigs nr)
           = tested (test_signatures sigs (normalize_content nr c) path)"
    by auto
qed

text \<open>
  Claim C2. Whatever the file, \<open>checkFile\<close> writes at most one line on standard output,
  and none when it does not read the content of the file. When it reads the content \<open>c\<close>
  (the file is scanned) and every signature has its matcher, the signatures tested are
  those of the set, in its order, up to and including the first that matches the
  normalized content, and none after it; the output is the one line
  \<open>Matched: <title> (signature id = <id>): <path>\<close> of that signature, or nothing when
  no signature matches.
\<close>

theorem first_match_reported:
  "length (stdout_lines (checkFile g D os path sigs nr)) \<le> 1
   \<and> (Op ReadAll \<notin> set (checkFile g D os path sigs nr)
        \<longrightarrow> stdout_lines (checkFile g D os path sigs nr) = [])
   \<and> (os path = Inr f \<and> Op ReadAll \<in> set (checkFile g D os path sigs nr)
        \<and> ReadAll_bytes f = Inr c \<and> 2 \<le> length nr \<and> (\<forall>s\<in>set sigs. Regexp s \<noteq> None)
        \<longrightarrow> tested (checkFile g D os path sigs nr) =
              map Id_attr (takeWhile (\<lambda>s. \<not> matches s (normalize_content nr c)) sigs)
                @ (case find (\<lambda>s. matches s (normalize_content nr c)) sigs of
                     None \<Rightarrow> []
                   | Some s \<Rightarrow> [Id_attr s])
            \<and> stdout_lines (checkFile g D os path sigs nr) =
                (case find (\<lambda>s. matches s (normalize_content nr c)) sigs of
                   None \<Rightarrow> []
                 | Some s \<Rightarrow>
                     [''Matched: '' @ Title s @ '' (signature id = '' @ fmt_d (Id_attr s)
                        @ ''): '' @ path @ nl]))"
proof (intro conjI impI)
  show "length (stdout_lines (checkFile g D os path sigs nr)) \<le> 1"
    by (rule checkFile_at_most_one)
next
  assume "Op ReadAll \<notin> set (checkFile g D os path sigs nr)"
  then show "stdout_lines (checkFile g D os path sigs nr) = []"
    by (simp add: checkFile_unscanned)
next
  assume h: "os path = Inr f \<and> Op ReadAll \<in> set (checkFile g D os path sigs nr)
        \<and> ReadAll_bytes f = Inr c \<and> 2 \<le> length nr \<and> (\<forall>s\<in>set sigs. Regexp s \<noteq> None)"
  then have scanned: "os path = Inr f" "Op ReadAll \<in> set (checkFile g D os path sigs nr)"
      "ReadAll_bytes f = Inr c" "2 \<le> length nr"
    and compiled: "\<forall>s\<in>set sigs. Regexp s \<noteq> None"
    by simp_all
  show "tested (checkFile g D os path sigs nr) =
          map Id_attr (takeWhile (\<lambda>s. \<not> matches s (normalize_content nr c)) sigs)
            @ (case find (\<lambda>s. matches s (normalize_content nr c)) sigs of
                 None \<Rightarrow> []
               | Some s \<Rightarrow> [Id_attr s])"
    using checkFile_scanned(2) [OF scanned] test_signatures_tested [OF compiled] by simp
  show "stdout_lines (checkFile g D os path sigs nr) =
          (case find (\<lambda>s. matches s (normalize_content nr c)) sigs of
             None \<Rightarrow> []
           | Some s \<Rightarrow>
               [''Matched: '' @ Title s @ '' (signature id = '' @ fmt_d (Id_attr s)
                  @ ''): '' @ path @ nl])"
    using checkFile_scanned(1) [OF scanned] test_signatures_stdout [OF compiled] by simp
qed

theorem first_match_reported_witness:
  "example_fs ''shell.php'' = Inr (regular_file shell_php)
   \<and> Op ReadAll \<in> set (checkFile example_globals example_sniff example_fs ''shell.php''
                          [Decoy, WebShell, Late] example_nr)
   \<and> ReadAll_bytes (regular_file shell_php) = Inr shell_php
   \<and> 2 \<le> length example_nr
   \<and> Regexp Decoy \<noteq> None \<and> Regexp WebShell \<noteq> None \<and> Regexp Late \<noteq> None
   \<and> find (\<lambda>s. matches s (normalize_content example_nr shell_php)) [Decoy, WebShell, Late]
        = Some WebShell
   \<and> tested (checkFile example_globals example_sniff example_fs ''shell.php''
                [Decoy, WebShell, Late] example_nr) = [7, 1]
   \<and> stdout_lines (checkFile example_globals example_sniff example_fs ''shell.php''
                      [Decoy, WebShell, Late] example_nr)
        = [''Matched: WebShell (signature id = 1): shell.php'' @ nl]
   \<and> Op ReadAll \<notin> set (checkFile example_globals example_sniff example_fs ''gone.php''
                          [Decoy, WebShell, Late] example_nr)
   \<and> stdout_lines (checkFile example_globals example_sniff example_fs ''gone.php''
                      [Decoy, WebShell, Late] example_nr) = []"
proof -
  have gone: "Op ReadAll \<notin> set (checkFile example_globals example_sniff example_fs ''gone.php''
                          [Decoy, WebShell, Late] example_nr)"
    by code_simp
  note unread = first_match_reported [of example_globals example_sniff example_fs "''gone.php''"
      "[Decoy, WebShell, Late]" example_nr]
  have norm: "normalize_content example_nr shell_php = shell_php"
    by code_simp
  have m: "\<not> matches Decoy shell_php" "matches WebShell shell_php"
    by code_simp+
  have hyps: "example_fs ''shell.php'' = Inr (regular_file shell_php)
     \<and> Op ReadAll \<in> set (checkFile example_globals example_sniff example_fs ''shell.php''
                          [Decoy, WebShell, Late] example_nr)
     \<and> ReadAll_bytes (regular_file shell_php) = Inr shell_php
     \<and> 2 \<le> length example_nr
     \<and> (\<forall>s\<in>set [Decoy, WebShell, Late]. Regexp s \<noteq> None)"
    by code_simp
  have ids: "Id_attr Decoy = 7" "Id_attr WebShell = 1" "Title WebShell = ''WebShell''"
    by (simp_all add: Decoy_def WebShell_def)
  have d: "fmt_d 1 = ''1''"
    by code_simp
  have regexps: "Regexp Decoy \<noteq> None" "Regexp WebShell \<noteq> None" "Regexp Late \<noteq> None"
    by (simp_all add: Decoy_def WebShell_def Late_def)
  from first_match_reported [of example_globals example_sniff example_fs "''shell.php''"
      "[Decoy, WebShell, Late]" example_nr "regular_file shell_php" shell_php] hyps regexps
    unread gone
  show ?thesis
    by (simp add: norm m ids d)
qed

section \<open>\<open>readDatabase\<close>: compilation and the severity filter\<close>

lemma compile_signatures_fail:
  "find (\<lambda>s. isl (C (Signature s))) sigs = Some s \<Longrightarrow>
   compile_signatures C sigs
     = Inl (FailedToCompile (Id_attr s) (Signature s) (projl (C (Signature s))))"
  by (induction sigs) (auto split: sum.splits if_splits)

lemma compile_signatures_ok:
  "\<forall>s\<in>set sigs. \<not> isl (C (Signature s)) \<Longrightarrow>
   compile_signatures C sigs = Inr (map (compiled C) sigs)"
  by (induction sigs) (auto simp: compiled_def split: sum.splits)

lemma compile_signatures_Inr:
  "compile_signatures C sigs = Inr sigs' \<Longrightarrow>
   (\<forall>s\<in>set sigs. \<not> isl (C (Signature s))) \<and> sigs' = map (compiled C) sigs"
  by (induction sigs arbitrary: sigs') (auto simp: compiled_def split: sum.splits)

lemma filter_compiled:
  "filter (\<lambda>s. Type s = t) (map (compiled C) sigs)
     = map (compiled C) (filter (\<lambda>s. Type s = t) sigs)"
  by (induction sigs) (auto simp: compiled_def)

lemma readDatabase_Inr:
  assumes "readDatabase L g path = Inr db'"
  shows "\<exists>db. load_document L g path = Inr db
            \<and> (\<forall>s\<in>set (Signatures db). \<not> isl (regexp_Compile L (Signature s)))
            \<and> Signatures db' =
                (if SKIPSOFT g then
                   filter (\<lambda>s. Type s = ''c'') (map (compiled (regexp_Compile L)) (Signatures db))
                 else map (compiled (regexp_Compile L)) (Signatures db))"
proof -
  from assms obtain db sigs where l: "load_document L g path = Inr db"
    and c: "compile_signatures (regexp_Compile L) (Signatures db) = Inr sigs"
    and d: "Signatures db' = (if SKIPSOFT g then filter (\<lambda>s. Type s = ''c'') sigs else sigs)"
    by (auto simp: readDatabase_def split: sum.splits if_splits)
  with compile_signatures_Inr [OF c] show ?thesis
    by auto
qed

text \<open>
  Claim C3. When the document is loaded and is not empty, and some pattern does not
  compile, \<open>readDatabase\<close> returns the error that carries the id and the pattern of the
  first such signature, and no set. When \<open>readDatabase\<close> returns a set, every signature
  of the document has compiled, every signature returned has its matcher, and the set
  is the whole document in its order, each signature with its matcher (of which the
  severity filter, when it is on, keeps the critical ones: claim C4).
\<close>

theorem compile_all_or_fail:
  "(load_document L g path = Inr db \<and> Signatures db \<noteq> []
      \<and> find (\<lambda>s. isl (regexp_Compile L (Signature s))) (Signatures db) = Some s
     \<longrightarrow> readDatabase L g path =
           Inl (FailedToCompile (Id_attr s) (Signature s)
                  (projl (regexp_Compile L (Signature s)))))
   \<and> (readDatabase L g path = Inr db'
     \<longrightarrow> (\<exists>db. load_document L g path = Inr db
            \<and> (\<forall>s\<in>set (Signatures db). \<not> isl (regexp_Compile L (Signature s)))
            \<and> (\<forall>s\<in>set (Signatures db'). Regexp s \<noteq> None)
            \<and> Signatures db' =
                (if SKIPSOFT g then
                   filter (\<lambda>s. Type s = ''c'') (map (compiled (regexp_Compile L)) (Signatures db))
                 else map (compiled (regexp_Compile L)) (Signatures db))))"
proof (intro conjI impI)
  assume "load_document L g path = Inr db \<and> Signatures db \<noteq> []
      \<and> find (\<lambda>s. isl (regexp_Compile L (Signature s))) (Signatures db) = Some s"
  then show "readDatabase L g path =
           Inl (FailedToCompile (Id_attr s) (Signature s)
                  (projl (regexp_Compile L (Signature s))))"
    by (simp add: readDatabase_def compile_signatures_fail)
next
  assume "readDatabase L g path = Inr db'"
  from readDatabase_Inr [OF this] obtain db where l: "load_document L g path = Inr db"
    and ok: "\<forall>s\<in>set (Signatures db). \<not> isl (regexp_Compile L (Signature s))"
    and d: "Signatures db' =
                (if SKIPSOFT g then
                   filter (\<lambda>s. Type s = ''c'') (map (compiled (regexp_Compile L)) (Signatures db))
                 else map (compiled (regexp_Compile L)) (Signatures db))"
    by blast
  have "\<forall>s\<in>set (map (compiled (regexp_Compile L)) (Signatures db)). Regexp s \<noteq> None"
    using ok by (auto simp: compiled_def split: sum.splits)
  with d have "\<forall>s\<in>set (Signatures db'). Regexp s \<noteq> None"
    by (auto split: if_splits)
  with l ok d
  show "\<exists>db. load_document L g path = Inr db
            \<and> (\<forall>s\<in>set (Signatures db). \<not> isl (regexp_Compile L (Signature s)))
            \<and> (\<forall>s\<in>set (Signatures db'). Regexp s \<noteq> None)
            \<and> Signatures db' =
                (if SKIPSOFT g then
                   filter (\<lambda>s. Type s = ''c'') (map (compiled (regexp_Compile L)) (Signatures db))
                 else map (compiled (regexp_Compile L)) (Signatures db))"
    by blast
qed

lemma load_broken:
  "load_document example_Library example_globals ''broken.xml''
     = Inr \<lparr>Signatures = [raw 1 ''Base64'' ''s'' ''base64_decode'',
                            raw 2 ''Unclosed'' ''c'' ''('',
                            raw 3 ''PostData'' ''c'' ''POST'']\<rparr>"
  by (simp add: load_document_def example_Library_def HasPrefix_def)

lemma load_three:
  "load_document example_Library example_globals ''three.xml''
     = Inr \<lparr>Signatures = [raw 1 ''Base64'' ''s'' ''base64_decode'',
                            raw 2 ''WebShell'' ''c'' webshell_pattern,
                            raw 3 ''PostData'' ''c'' ''POST'']\<rparr>"
  by (simp add: load_document_def example_Library_def HasPrefix_def)

lemma compile_examples:
  "example_Compile ''base64_decode'' = Inr (\<lambda>c. Contains c ''base64_decode'')"
  "example_Compile ''POST'' = Inr (\<lambda>c. Contains c ''POST'')"
  "example_Compile webshell_pattern = Inr re_webshell"
  "example_Compile ''('' = Inl (LibError ''error parsing regexp: missing closing ): `(`'')"
  by (simp_all add: example_Compile_def webshell_pattern_def)

lemma example_fields:
  "regexp_Compile example_Library = example_Compile"
  "SKIPSOFT example_globals = False"
  by (simp_all add: example_Library_def example_globals_def)

theorem compile_all_or_fail_witness:
  "load_document example_Library example_globals ''broken.xml''
     = Inr \<lparr>Signatures = [raw 1 ''Base64'' ''s'' ''base64_decode'',
                            raw 2 ''Unclosed'' ''c'' ''('',
                            raw 3 ''PostData'' ''c'' ''POST'']\<rparr>
   \<and> find (\<lambda>s. isl (regexp_Compile example_Library (Signature s)))
         [raw 1 ''Base64'' ''s'' ''base64_decode'', raw 2 ''Unclosed'' ''c'' ''('',
          raw 3 ''PostData'' ''c'' ''POST'']
        = Some (raw 2 ''Unclosed'' ''c'' ''('')
   \<and> readDatabase example_Library example_globals ''broken.xml''
        = Inl (FailedToCompile 2 ''('' (LibError ''error parsing regexp: missing closing ): `(`''))
   \<and> (\<exists>db'. readDatabase example_Library example_globals ''three.xml'' = Inr db'
        \<and> map Id_attr (Signatures db') = [1, 2, 3]
        \<and> map Regexp (Signatures db')
            = [Some (\<lambda>c. Contains c ''base64_decode''), Some re_webshell,
               Some (\<lambda>c. Contains c ''POST'')])"
proof -
  have f: "find (\<lambda>s. isl (regexp_Compile example_Library (Signature s)))
         [raw 1 ''Base64'' ''s'' ''base64_decode'', raw 2 ''Unclosed'' ''c'' ''('',
          raw 3 ''PostData'' ''c'' ''POST'']
        = Some (raw 2 ''Unclosed'' ''c'' ''('')"
    by (simp add: example_fields raw_def compile_examples)
  have r: "readDatabase example_Library example_globals ''three.xml''
        = Inr \<lparr>Signatures = map (compiled example_Compile)
                  [raw 1 ''Base64'' ''s'' ''base64_decode'',
                   raw 2 ''WebShell'' ''c'' webshell_pattern,
                   raw 3 ''PostData'' ''c'' ''POST'']\<rparr>"
    by (simp add: readDatabase_def load_three example_fields raw_def compile_examples
          compiled_def)
  note bad = compile_all_or_fail [of example_Library example_globals "''broken.xml''"
      "\<lparr>Signatures = [raw 1 ''Base64'' ''s'' ''base64_decode'',
                            raw 2 ''Unclosed'' ''c'' ''('',
                            raw 3 ''PostData'' ''c'' ''POST'']\<rparr>"
      "raw 2 ''Unclosed'' ''c'' ''(''"]
  note good = compile_all_or_fail [of example_Library example_globals "''three.xml''" _ _
      "\<lparr>Signatures = map (compiled example_Compile)
                  [raw 1 ''Base64'' ''s'' ''base64_decode'',
                   raw 2 ''WebShell'' ''c'' webshell_pattern,
                   raw 3 ''PostData'' ''c'' ''POST'']\<rparr>"]
  from bad good load_broken f r show ?thesis
    by (auto simp: example_fields raw_def compile_examples compiled_def)
qed
lemma check_content_no_signatures:
  "stdout_lines (check_content f path [] nr) = [] \<and> tested (check_content f path [] nr) = []"
  by (auto simp: check_content_def split: sum.splits)

lemma checkFile_no_signatures:
  "stdout_lines (checkFile g D os path [] nr) = [] \<and> tested (checkFile g D os path [] nr) = []"
  using checkFile_cases [of g D os path "[]" nr] check_content_no_signatures
  by auto

text \<open>
  Claim C4. With the skip-soft option, the set \<open>readDatabase\<close> returns is the
  signatures of the loaded document whose severity code is \<open>c\<close>, in the order of the
  document, each with its matcher. It is returned whenever the document is loaded, is
  not empty and compiles, also when no signature is critical and the set is empty. With
  no signature, \<open>checkFile\<close> tests nothing and prints no match, whatever the file.
\<close>

theorem skip_soft_keeps_critical:
  "(SKIPSOFT g \<and> readDatabase L g path = Inr db'
      \<longrightarrow> (\<exists>db. load_document L g path = Inr db
            \<and> Signatures db' =
                map (compiled (regexp_Compile L)) (filter (\<lambda>s. Type s = ''c'') (Signatures db))))
   \<and> (SKIPSOFT g \<and> load_document L g path = Inr db \<and> Signatures db \<noteq> []
       \<and> (\<forall>s\<in>set (Signatures db). \<not> isl (regexp_Compile L (Signature s)))
      \<longrightarrow> readDatabase L g path =
            Inr \<lparr>Signatures =
                   map (compiled (regexp_Compile L))
                     (filter (\<lambda>s. Type s = ''c'') (Signatures db))\<rparr>)
   \<and> stdout_lines (checkFile g D os p [] nr) = []
   \<and> tested (checkFile g D os p [] nr) = []"
proof (intro conjI impI)
  assume "SKIPSOFT g \<and> readDatabase L g path = Inr db'"
  then show "\<exists>db. load_document L g path = Inr db
            \<and> Signatures db' =
                map (compiled (regexp_Compile L)) (filter (\<lambda>s. Type s = ''c'') (Signatures db))"
    using readDatabase_Inr [of L g path db'] by (auto simp: filter_compiled)
next
  assume "SKIPSOFT g \<and> load_document L g path = Inr db \<and> Signatures db \<noteq> []
       \<and> (\<forall>s\<in>set (Signatures db). \<not> isl (regexp_Compile L (Signature s)))"
  then show "readDatabase L g path =
            Inr \<lparr>Signatures =
                   map (compiled (regexp_Compile L))
                     (filter (\<lambda>s. Type s = ''c'') (Signatures db))\<rparr>"
    by (simp add: readDatabase_def compile_signatures_ok filter_compiled)
next
  show "stdout_lines (checkFile g D os p [] nr) = []"
    by (simp add: checkFile_no_signatures)
next
  show "tested (checkFile g D os p [] nr) = []"
    by (simp add: checkFile_no_signatures)
qed

lemma load_skip:
  "load_document example_Library skip_soft_globals ''three.xml''
     = Inr \<lparr>Signatures = [raw 1 ''Base64'' ''s'' ''base64_decode'',
                            raw 2 ''WebShell'' ''c'' webshell_pattern,
                            raw 3 ''PostData'' ''c'' ''POST'']\<rparr>"
  "load_document example_Library skip_soft_globals ''soft.xml''
     = Inr \<lparr>Signatures = [raw 1 ''Base64'' ''s'' ''base64_decode'']\<rparr>"
  by (simp_all add: load_document_def example_Library_def HasPrefix_def)

theorem skip_soft_keeps_critical_witness:
  "SKIPSOFT skip_soft_globals
   \<and> readDatabase example_Library skip_soft_globals ''three.xml''
        = Inr \<lparr>Signatures = [compiled example_Compile (raw 2 ''WebShell'' ''c'' webshell_pattern),
                               compiled example_Compile (raw 3 ''PostData'' ''c'' ''POST'')]\<rparr>
   \<and> readDatabase example_Library skip_soft_globals ''soft.xml'' = Inr \<lparr>Signatures = []\<rparr>
   \<and> (\<exists>db. load_document example_Library skip_soft_globals ''soft.xml'' = Inr db
          \<and> [] = map (compiled (regexp_Compile example_Library))
                    (filter (\<lambda>s. Type s = ''c'') (Signatures db)))"
proof -
  have s: "SKIPSOFT skip_soft_globals"
    by (simp add: skip_soft_globals_def)
  note three = skip_soft_keeps_critical [where g = skip_soft_globals and L = example_Library
      and path = "''three.xml''"
      and db = "\<lparr>Signatures = [raw 1 ''Base64'' ''s'' ''base64_decode'',
                            raw 2 ''WebShell'' ''c'' webshell_pattern,
                            raw 3 ''PostData'' ''c'' ''POST'']\<rparr>"]
  note soft = skip_soft_keeps_critical [where g = skip_soft_globals and L = example_Library
      and path = "''soft.xml''"
      and db = "\<lparr>Signatures = [raw 1 ''Base64'' ''s'' ''base64_decode'']\<rparr>"
      and db' = "\<lparr>Signatures = []\<rparr>"]
  from three soft s load_skip show ?thesis
    by (simp add: example_fields raw_def compile_examples)
qed

section \<open>\<open>walk\<close>: errors of the traversal\<close>

lemma Walk_walkFn: "Walk vs (walkFn g) = (concat (map (\<lambda>v. fst (walkFn g v)) vs), None)"
proof (induction vs)
  case Nil
  then show ?case by simp
next
  case (Cons v vs)
  then show ?case by (cases v) auto
qed

text \<open>
  Claim C5. The goroutine of \<open>walk\<close> does, for each visit in turn, what \<open>walkFn\<close> does
  for it, whatever errors the visits before it met, and closes the channel after the
  last visit. For a visit that failed, \<open>walkFn\<close> logs the line
  \<open>[fatal] walk error: <error>\<close> and returns no error. In the example, the walk logs that
  line for the directory it cannot read, goes on to send \<open>www/shell.php\<close> and then closes
  the channel.
\<close>

theorem walk_error_logged_fatal:
  "walk g tree root = concat (map (\<lambda>v. fst (walkFn g v)) (tree root)) @ [CloseChan]
   \<and> walkFn g (Failure p err) = ([Logged (''[fatal] walk error: '' @ err @ nl)], None)
   \<and> walk example_globals example_tree ''www'' =
       [Logged (''[fatal] walk error: open www/private: permission denied'' @ nl),
        Send ''www/shell.php'', CloseChan]"
proof (intro conjI)
  show "walk g tree root = concat (map (\<lambda>v. fst (walkFn g v)) (tree root)) @ [CloseChan]"
    by (simp add: walk_def Walk_walkFn)
  show "walkFn g (Failure p err) = ([Logged (''[fatal] walk error: '' @ err @ nl)], None)"
    by simp
  show "walk example_globals example_tree ''www'' =
       [Logged (''[fatal] walk error: open www/private: permission denied'' @ nl),
        Send ''www/shell.php'', CloseChan]"
    by code_simp
qed

section \<open>\<open>checkFile\<close>: the size ceiling\<close>

lemma length_padded [simp]: "length (padded head n) = n"
  by (auto simp: padded_def)

lemma padded_not_Nil: "0 < n \<Longrightarrow> padded head n \<noteq> []"
  using length_padded [of head n] by (cases "padded head n") auto

lemma regular_file_padded:
  "0 < n \<Longrightarrow> Read_head (regular_file (padded head n)) = Inr (take 512 (padded head n))"
  "Seek_start (regular_file c) = None"
  "Stat_size (regular_file (padded head n)) = Inr (int n)"
  "ReadAll_bytes (regular_file c) = Inr c"
  by (simp_all add: regular_file_def padded_not_Nil)

lemma sniff_jpeg: "4 \<le> n \<Longrightarrow> example_sniff (take 512 (padded jpeg_magic n)) = ''image/jpeg''"
  by (simp add: example_sniff_def padded_def jpeg_magic_def)

lemma sniff_photo:
  "example_sniff (take 512 (padded jpeg_magic (Suc (nat MAXFILESIZE)))) = ''image/jpeg''"
  by (simp add: sniff_jpeg MAXFILESIZE_def)

lemma check_content_oversized:
  "Stat_size f = Inr sz \<Longrightarrow> MAXFILESIZE < sz \<Longrightarrow>
   check_content f path sigs nr
     = [Op Stat, Logged (''[warning] file size more than 2M: '' @ path @ nl)]"
proof -
  have "fmt_d (MAXFILESIZE div 2 ^ (10 * 2)) = ''2''"
    by code_simp
  then show "Stat_size f = Inr sz \<Longrightarrow> MAXFILESIZE < sz \<Longrightarrow>
   check_content f path sigs nr
     = [Op Stat, Logged (''[warning] file size more than 2M: '' @ path @ nl)]"
    by (simp add: check_content_def)
qed

lemma check_content_within:
  "Stat_size f = Inr sz \<Longrightarrow> sz \<le> MAXFILESIZE \<Longrightarrow>
   Op ReadAll \<in> set (check_content f path sigs nr)"
  by (simp add: check_content_def)

lemma check_content_Stat: "Op Stat \<in> set (check_content f path sigs nr)"
  by (simp add: check_content_def)

lemma reaches_size_check:
  "os path = Inr f \<Longrightarrow>
   Op Stat \<in> set (checkFile g D os path sigs nr) \<longleftrightarrow>
     (FFILTER g \<noteq> {}
      \<or> (case Read_head f of
            Inl err \<Rightarrow> True
          | Inr head \<Rightarrow> HasPrefix (D head) ''text/'' \<or> HasSuffix (D head) ''/xml'')
        \<and> Seek_start f = None)"
  by (auto simp: checkFile_def check_opened_def check_content_Stat Let_def
           split: sum.splits option.splits)

lemma checkFile_reaches:
  "os path = Inr f \<Longrightarrow> Op Stat \<in> set (checkFile g D os path sigs nr) \<Longrightarrow>
   checkFile g D os path sigs nr = [Op Open, Op Read, Op Seek] @ check_content f path sigs nr @ [Op Close]
   \<or> checkFile g D os path sigs nr = [Op Open] @ check_content f path sigs nr @ [Op Close]"
  using checkFile_cases [of g D os path sigs nr] by auto

lemma checkFile_not_reaches:
  "os path = Inr f \<Longrightarrow> Op Stat \<notin> set (checkFile g D os path sigs nr) \<Longrightarrow>
   Op ReadAll \<notin> set (checkFile g D os path sigs nr)"
  using checkFile_cases [of g D os path sigs nr] check_content_Stat by auto

text \<open>
  Claim C6, amended. A file whose size exceeds \<open>MAXFILESIZE\<close>, 2 MiB, is never read
  whole, no signature is tested on it and nothing is printed for it. When \<open>checkFile\<close>
  reaches the size check, the log is the one line
  \<open>[warning] file size more than 2M: <path>\<close>. The size check is reached when the file
  opens and either an extension filter is set, or the first read fails or gives a head
  that is classified \<open>text/*\<close> or \<open>*/xml\<close>, and the seek succeeds. A file of at most
  2 MiB that reaches the size check is read and, when the read succeeds, scanned: the
  signatures are tested on its normalized content.
\<close>

theorem oversized_file_skipped:
  "(os path = Inr f \<and> Stat_size f = Inr sz \<and> MAXFILESIZE < sz
      \<longrightarrow> Op ReadAll \<notin> set (checkFile g D os path sigs nr)
          \<and> tested (checkFile g D os path sigs nr) = []
          \<and> stdout_lines (checkFile g D os path sigs nr) = []
          \<and> (Op Stat \<in> set (checkFile g D os path sigs nr)
               \<longrightarrow> log_lines (checkFile g D os path sigs nr)
                     = [''[warning] file size more than 2M: '' @ path @ nl]))
   \<and> (os path = Inr f
      \<longrightarrow> (Op Stat \<in> set (checkFile g D os path sigs nr) \<longleftrightarrow>
            (FFILTER g \<noteq> {}
             \<or> (case Read_head f of
                   Inl err \<Rightarrow> True
                 | Inr head \<Rightarrow> HasPrefix (D head) ''text/'' \<or> HasSuffix (D head) ''/xml'')
               \<and> Seek_start f = None)))
   \<and> (os path = Inr f \<and> Stat_size f = Inr sz \<and> sz \<le> MAXFILESIZE
       \<and> Op Stat \<in> set (checkFile g D os path sigs nr)
      \<longrightarrow> Op ReadAll \<in> set (checkFile g D os path sigs nr))
   \<and> (os path = Inr f \<and> Stat_size f = Inr sz \<and> sz \<le> MAXFILESIZE
       \<and> Op Stat \<in> set (checkFile g D os path sigs nr)
       \<and> ReadAll_bytes f = Inr c \<and> 2 \<le> length nr
      \<longrightarrow> tested (checkFile g D os path sigs nr)
            = tested (test_signatures sigs (normalize_content nr c) path)
          \<and> stdout_lines (checkFile g D os path sigs nr)
            = stdout_lines (test_signatures sigs (normalize_content nr c) path))"
proof (intro conjI impI)
  assume h: "os path = Inr f \<and> Stat_size f = Inr sz \<and> MAXFILESIZE < sz"
  show no_read: "Op ReadAll \<notin> set (checkFile g D os path sigs nr)"
  proof (cases "Op Stat \<in> set (checkFile g D os path sigs nr)")
    case True
    with h checkFile_reaches [of os path f g D sigs nr]
      check_content_oversized [of f sz path sigs nr]
    show ?thesis by auto
  next
    case False
    with h checkFile_not_reaches [of os path f g D sigs nr] show ?thesis by simp
  qed
  then show "tested (checkFile g D os path sigs nr) = []"
    and "stdout_lines (checkFile g D os path sigs nr) = []"
    by (simp_all add: checkFile_unscanned)
  assume "Op Stat \<in> set (checkFile g D os path sigs nr)"
  with h checkFile_reaches [of os path f g D sigs nr]
    check_content_oversized [of f sz path sigs nr]
  show "log_lines (checkFile g D os path sigs nr)
          = [''[warning] file size more than 2M: '' @ path @ nl]"
    by auto
next
  assume "os path = Inr f"
  then show "Op Stat \<in> set (checkFile g D os path sigs nr) \<longleftrightarrow>
            (FFILTER g \<noteq> {}
             \<or> (case Read_head f of
                   Inl err \<Rightarrow> True
                 | Inr head \<Rightarrow> HasPrefix (D head) ''text/'' \<or> HasSuffix (D head) ''/xml'')
               \<and> Seek_start f = None)"
    by (rule reaches_size_check)
next
  assume "os path = Inr f \<and> Stat_size f = Inr sz \<and> sz \<le> MAXFILESIZE
       \<and> Op Stat \<in> set (checkFile g D os path sigs nr)"
  with checkFile_reaches [of os path f g D sigs nr] check_content_within [of f sz path sigs nr]
  show "Op ReadAll \<in> set (checkFile g D os path sigs nr)"
    by auto
next
  assume h: "os path = Inr f \<and> Stat_size f = Inr sz \<and> sz \<le> MAXFILESIZE
       \<and> Op Stat \<in> set (checkFile g D os path sigs nr)
       \<and> ReadAll_bytes f = Inr c \<and> 2 \<le> length nr"
  with checkFile_reaches [of os path f g D sigs nr] check_content_within [of f sz path sigs nr]
  have "Op ReadAll \<in> set (checkFile g D os path sigs nr)"
    by auto
  with h checkFile_scanned [of os path f g D sigs nr c]
  show "tested (checkFile g D os path sigs nr)
            = tested (test_signatures sigs (normalize_content nr c) path)"
    and "stdout_lines (checkFile g D os path sigs nr)
            = stdout_lines (test_signatures sigs (normalize_content nr c) path)"
    by simp_all
qed

lemma sniff_small:
  "example_sniff (take 512 (padded jpeg_magic (nat MAXFILESIZE))) = ''image/jpeg''"
  by (simp add: sniff_jpeg MAXFILESIZE_def)

text \<open>
  Claim C6 as stated fails: with no extension filter, a file of 2 MiB + 1 bytes whose
  head is classified \<open>image/jpeg\<close> is abandoned after the first read, and nothing is
  logged; a file of exactly 2 MiB with such a head is abandoned in the same way, not
  scanned.
\<close>

theorem oversized_binary_no_warning:
  "Stat_size (regular_file (padded jpeg_magic (nat MAXFILESIZE + 1))) = Inr (MAXFILESIZE + 1)
   \<and> big_files ''photo.jpg'' = Inr (regular_file (padded jpeg_magic (nat MAXFILESIZE + 1)))
   \<and> checkFile no_filter example_sniff big_files ''photo.jpg'' [WebShell] example_nr
       = [Op Open, Op Read, Op Close]
   \<and> log_lines (checkFile no_filter example_sniff big_files ''photo.jpg'' [WebShell] example_nr)
       = []
   \<and> Stat_size (regular_file (padded jpeg_magic (nat MAXFILESIZE))) = Inr MAXFILESIZE
   \<and> big_files ''small.jpg'' = Inr (regular_file (padded jpeg_magic (nat MAXFILESIZE)))
   \<and> checkFile no_filter example_sniff big_files ''small.jpg'' [WebShell] example_nr
       = [Op Open, Op Read, Op Close]"
proof -
  have pos: "0 < nat MAXFILESIZE"
    by (simp add: MAXFILESIZE_def)
  have "checkFile no_filter example_sniff big_files ''photo.jpg'' [WebShell] example_nr
       = [Op Open, Op Read, Op Close]"
    by (simp add: checkFile_def check_opened_def big_files_def no_filter_def
          example_globals_def regular_file_padded sniff_photo HasPrefix_def HasSuffix_def Let_def)
  moreover have "checkFile no_filter example_sniff big_files ''small.jpg'' [WebShell] example_nr
       = [Op Open, Op Read, Op Close]"
    by (simp add: checkFile_def check_opened_def big_files_def no_filter_def
          example_globals_def regular_file_padded(1) [OF pos] sniff_small HasPrefix_def
          HasSuffix_def Let_def)
  ultimately show ?thesis
    by (simp add: regular_file_padded big_files_def MAXFILESIZE_def)
qed

theorem oversized_file_skipped_witness:
  "big_files ''big.php'' = Inr (regular_file (padded ''<?php'' (nat MAXFILESIZE + 1)))
   \<and> Stat_size (regular_file (padded ''<?php'' (nat MAXFILESIZE + 1))) = Inr (MAXFILESIZE + 1)
   \<and> MAXFILESIZE < MAXFILESIZE + 1
   \<and> FFILTER example_globals \<noteq> {}
   \<and> Op Stat \<in> set (checkFile example_globals example_sniff big_files ''big.php''
                       [WebShell] example_nr)
   \<and> Op ReadAll \<notin> set (checkFile example_globals example_sniff big_files ''big.php''
                          [WebShell] example_nr)
   \<and> tested (checkFile example_globals example_sniff big_files ''big.php''
                [WebShell] example_nr) = []
   \<and> log_lines (checkFile example_globals example_sniff big_files ''big.php''
                   [WebShell] example_nr)
        = [''[warning] file size more than 2M: big.php'' @ nl]
   \<and> big_files ''limit.php'' = Inr (regular_file (padded ''<?php'' (nat MAXFILESIZE)))
   \<and> Stat_size (regular_file (padded ''<?php'' (nat MAXFILESIZE))) = Inr MAXFILESIZE
   \<and> Op ReadAll \<in> set (checkFile example_globals example_sniff big_files ''limit.php''
                          [WebShell] example_nr)
   \<and> ReadAll_bytes (regular_file (padded ''<?php'' (nat MAXFILESIZE)))
        = Inr (padded ''<?php'' (nat MAXFILESIZE))
   \<and> 2 \<le> length example_nr
   \<and> tested (checkFile example_globals example_sniff big_files ''limit.php''
                [WebShell] example_nr) = [1]"
proof -
  have content: "ReadAll_bytes (regular_file (padded ''<?php'' (nat MAXFILESIZE)))
        = Inr (padded ''<?php'' (nat MAXFILESIZE))" "2 \<le> length example_nr"
    by (simp_all add: regular_file_padded example_nr_def)
  have one: "tested (test_signatures [WebShell] c ''limit.php'') = [1]" for c
    by (simp add: WebShell_def)
  have files: "big_files ''big.php'' = Inr (regular_file (padded ''<?php'' (nat MAXFILESIZE + 1)))"
    "big_files ''limit.php'' = Inr (regular_file (padded ''<?php'' (nat MAXFILESIZE)))"
    by (simp_all add: big_files_def)
  have sizes: "Stat_size (regular_file (padded ''<?php'' (nat MAXFILESIZE + 1))) = Inr (MAXFILESIZE + 1)"
    "Stat_size (regular_file (padded ''<?php'' (nat MAXFILESIZE))) = Inr MAXFILESIZE"
    by (simp_all add: regular_file_padded MAXFILESIZE_def)
  have filter: "FFILTER example_globals \<noteq> {}"
    by (simp add: example_globals_def)
  note big = oversized_file_skipped [where os = big_files and path = "''big.php''"
      and f = "regular_file (padded ''<?php'' (nat MAXFILESIZE + 1))" and sz = "MAXFILESIZE + 1"
      and g = example_globals and D = example_sniff and sigs = "[WebShell]" and nr = example_nr]
  note limit = oversized_file_skipped [where os = big_files and path = "''limit.php''"
      and f = "regular_file (padded ''<?php'' (nat MAXFILESIZE))" and sz = MAXFILESIZE
      and g = example_globals and D = example_sniff and sigs = "[WebShell]" and nr = example_nr
      and c = "padded ''<?php'' (nat MAXFILESIZE)"]
  from big limit files sizes filter content one show ?thesis
    by simp
qed

section \<open>Escape sequences: steps 3 and 4 of the normalizer\<close>

lemma Unquote_single:
  "Unquote ([squote] @ s @ [squote]) =
     (case unquote_chars squote (s @ [squote]) [] of
        Inl e \<Rightarrow> Inl e
      | Inr (out, rem) \<Rightarrow> if rem \<noteq> [] then Inl ErrSyntax else Inr out)"
  by (simp add: Unquote_def Let_def squote_def dquote_def)

lemma unquote_chars_bslash:
  "unquote_chars squote (bslash # s) buf =
     (case UnquoteChar (bslash # s) squote of
        Inl e \<Rightarrow> Inl ErrSyntax
      | Inr (r, multibyte, rem) \<Rightarrow>
          (case rem of
             [] \<Rightarrow> Inl ErrSyntax
           | q # rest' \<Rightarrow>
               if q = squote then
                 Inr (if r < 0x80 \<or> \<not> multibyte then buf @ [byte r] else AppendRune buf r, rest')
               else Inl ErrSyntax))"
  by (subst unquote_chars.simps)
     (simp add: Let_def bslash_def squote_def split: sum.splits prod.splits list.splits)

lemma UnquoteChar_x:
  "UnquoteChar (bslash # CHR ''x'' # s2) squote =
     (if length s2 < 2 then Inl ErrSyntax
      else
        (case hex_digits 0 (take 2 s2) of
           None \<Rightarrow> Inl ErrSyntax
         | Some v \<Rightarrow> Inr (v, False, drop 2 s2)))"
  by (simp add: UnquoteChar_def bslash_def squote_def dquote_def code_def split: option.splits)

lemma UnquoteChar_X: "UnquoteChar (bslash # CHR ''X'' # s2) squote = Inl ErrSyntax"
  by (simp add: UnquoteChar_def bslash_def squote_def dquote_def code_def)

lemma UnquoteChar_8: "UnquoteChar (bslash # CHR ''8'' # s2) squote = Inl ErrSyntax"
  by (simp add: UnquoteChar_def bslash_def squote_def dquote_def code_def)

lemma UnquoteChar_9: "UnquoteChar (bslash # CHR ''9'' # s2) squote = Inl ErrSyntax"
  by (simp add: UnquoteChar_def bslash_def squote_def dquote_def code_def)

lemma unhex_squote [simp]: "unhex squote = None"
  by (simp add: unhex_def squote_def code_def)

lemma hex_one_digit_fails:
  "Unquote ([squote] @ [bslash, CHR ''x'', h] @ [squote]) = Inl ErrSyntax"
  unfolding Unquote_single
  by (simp add: unquote_chars_bslash UnquoteChar_x split: option.splits)

lemma hex_upper_fails:
  "Unquote ([squote] @ (bslash # CHR ''X'' # r) @ [squote]) = Inl ErrSyntax"
  unfolding Unquote_single
  by (simp add: unquote_chars_bslash UnquoteChar_X)

lemma hex_two_digits:
  "unhex h1 = Some v1 \<Longrightarrow> unhex h2 = Some v2 \<Longrightarrow>
   Unquote ([squote] @ [bslash, CHR ''x'', h1, h2] @ [squote]) = Inr [byte (v1 * 16 + v2)]"
  unfolding Unquote_single
  by (simp add: unquote_chars_bslash UnquoteChar_x)

lemma octal_89_fails:
  "d = CHR ''8'' \<or> d = CHR ''9'' \<Longrightarrow>
   Unquote ([squote] @ (bslash # d # ds) @ [squote]) = Inl ErrSyntax"
  unfolding Unquote_single
  by (auto simp: unquote_chars_bslash UnquoteChar_8 UnquoteChar_9)

lemma UnquoteChar_octal:
  assumes "is_octal d"
  shows "UnquoteChar (bslash # d # s2) squote =
     (if length s2 < 2 then Inl ErrSyntax
      else
        (case oct_digits (code d - code (CHR ''0'')) (take 2 s2) of
           None \<Rightarrow> Inl ErrSyntax
         | Some v \<Rightarrow> if 255 < v then Inl ErrSyntax else Inr (v, False, drop 2 s2)))"
proof -
  from assms consider "d = CHR ''0''" | "d = CHR ''1''" | "d = CHR ''2''" | "d = CHR ''3''"
    | "d = CHR ''4''" | "d = CHR ''5''" | "d = CHR ''6''" | "d = CHR ''7''"
    by (auto simp: is_octal_def)
  then show ?thesis
    by cases
      (simp_all add: UnquoteChar_def bslash_def squote_def dquote_def code_def
         split: option.splits)
qed

lemma oct_digits_squote [simp]: "oct_digits v (squote # r) = None"
  by (simp add: squote_def code_def)

lemma octal_one_digit_fails:
  "is_octal d \<Longrightarrow> Unquote ([squote] @ [bslash, d] @ [squote]) = Inl ErrSyntax"
  unfolding Unquote_single
  by (simp add: unquote_chars_bslash UnquoteChar_octal)

lemma octal_two_digits_fails:
  "is_octal d \<Longrightarrow> Unquote ([squote] @ [bslash, d, d2] @ [squote]) = Inl ErrSyntax"
  unfolding Unquote_single
  by (simp add: unquote_chars_bslash UnquoteChar_octal split: option.splits)

lemma octal_three_digits:
  "is_octal d1 \<Longrightarrow>
   Unquote ([squote] @ [bslash, d1, d2, d3] @ [squote]) =
     (case oct_digits (code d1 - code (CHR ''0'')) [d2, d3] of
        None \<Rightarrow> Inl ErrSyntax
      | Some v \<Rightarrow> if 255 < v then Inl ErrSyntax else Inr [byte v])"
  unfolding Unquote_single
  by (simp add: unquote_chars_bslash UnquoteChar_octal split: option.splits)

lemma ReplaceAllFunc_match:
  assumes "re (span @ rest) = Some (length span)" and "span \<noteq> []"
  shows "ReplaceAllFunc re (span @ rest) repl = repl span @ ReplaceAllFunc re rest repl"
proof -
  from assms(2) obtain c cs where span: "span = c # cs"
    by (cases span) auto
  with assms(1) have "re (c # cs @ rest) = Some (Suc (length cs))"
    by simp
  then show ?thesis
    by (simp add: span)
qed

lemma re_hex_match:
  "is_hex h \<Longrightarrow> x = CHR ''x'' \<or> x = CHR ''X'' \<Longrightarrow>
   re_hex (bslash # x # h # r) = Some (if r \<noteq> [] \<and> is_hex (hd r) then 4 else 3)"
  by (cases r) (auto simp: re_hex_def)

lemma re_octal_match:
  "is_digit d \<Longrightarrow>
   re_octal (bslash # d # r) = Some (2 + length (takeWhile is_digit (take 2 r)))"
  by (simp add: re_octal_def)

lemma re_hex_Some: "re_hex s = Some n \<Longrightarrow> 3 \<le> n"
  by (auto simp: re_hex_def split: list.splits if_splits)

lemma re_octal_Some: "re_octal s = Some n \<Longrightarrow> 2 \<le> n"
  by (auto simp: re_octal_def split: list.splits if_splits)

lemma dropWhile_Cons_length:
  "dropWhile P xs = y # ys \<Longrightarrow> Suc (length ys) \<le> length xs"
  using length_dropWhile_le [of P xs] by simp

lemma re_concat_Some: "re_concat s = Some n \<Longrightarrow> 3 \<le> n"
  by (auto simp: re_concat_def split: list.splits if_splits
           dest!: dropWhile_Cons_length)

lemma find_close_Some: "find_close r = Some k \<Longrightarrow> 2 \<le> k"
  by (induction r arbitrary: k rule: find_close.induct) (auto split: if_splits)

lemma re_comment_Some: "re_comment s = Some n \<Longrightarrow> 4 \<le> n"
  by (auto simp: re_comment_def split: list.splits if_splits dest: find_close_Some)

lemma escape_step:
  assumes "re = re_hex \<or> re = re_octal" and "re (span @ rest) = Some (length span)"
  shows "ReplaceAllFunc re (span @ rest) unquoteStr
           = unquoteStr span @ ReplaceAllFunc re rest unquoteStr"
proof -
  from assms re_hex_Some [of "span @ rest" "length span"]
    re_octal_Some [of "span @ rest" "length span"]
  have "span \<noteq> []"
    by auto
  with assms(2) show ?thesis
    by (rule ReplaceAllFunc_match)
qed

lemma unquoteStr_fail: "isl (Unquote ([squote] @ s @ [squote])) \<Longrightarrow> unquoteStr s = []"
  by (auto simp: unquoteStr_def split: sum.splits)

lemma check_content_read:
  "Stat_size f = Inr sz \<Longrightarrow> sz \<le> MAXFILESIZE \<Longrightarrow> ReadAll_bytes f = Inr c \<Longrightarrow>
   2 \<le> length nr \<Longrightarrow>
   check_content f path sigs nr
     = [Op Stat, Op ReadAll] @ test_signatures sigs (normalize_content nr c) path"
  by (simp add: check_content_def)

lemma is_hex_bslash: "\<not> is_hex bslash"
  by (simp add: is_hex_def bslash_def)

lemma is_digit_bslash: "\<not> is_digit bslash"
  by (simp add: is_digit_def bslash_def)

lemma bslash_not_x: "bslash \<noteq> CHR ''x''" "bslash \<noteq> CHR ''X''"
  by (simp_all add: bslash_def)

lemma takeWhile_take_stop:
  "\<not> P b \<Longrightarrow> takeWhile P (take k (r @ b # v)) = takeWhile P (take k r)"
proof (induction r arbitrary: k)
  case Nil
  then show ?case by (cases k) simp_all
next
  case (Cons a r)
  then show ?case by (cases k) simp_all
qed

lemma re_hex_before_bslash: "u \<noteq> [] \<Longrightarrow> re_hex (u @ bslash # v) = re_hex u"
proof (cases u)
  case Nil
  assume "u \<noteq> []"
  with Nil show ?thesis by simp
next
  case u1: (Cons b u1)
  show ?thesis
  proof (cases u1)
    case Nil
    with u1 show ?thesis by (cases v) (simp_all add: re_hex_def bslash_not_x)
  next
    case u2: (Cons x u2)
    show ?thesis
    proof (cases u2)
      case Nil
      with u1 u2 show ?thesis by (simp add: re_hex_def is_hex_bslash)
    next
      case (Cons h r)
      with u1 u2 takeWhile_take_stop [of is_hex bslash 1 r v] show ?thesis
        by (simp add: re_hex_def is_hex_bslash)
    qed
  qed
qed

lemma re_octal_before_bslash: "u \<noteq> [] \<Longrightarrow> re_octal (u @ bslash # v) = re_octal u"
proof (cases u)
  case Nil
  assume "u \<noteq> []"
  with Nil show ?thesis by simp
next
  case u1: (Cons b u1)
  show ?thesis
  proof (cases u1)
    case Nil
    with u1 show ?thesis by (simp add: re_octal_def is_digit_bslash)
  next
    case (Cons d r)
    with u1 takeWhile_take_stop [of is_digit bslash 2 r v] show ?thesis
      by (simp add: re_octal_def is_digit_bslash)
  qed
qed

lemma length_takeWhile_take: "length (takeWhile P (take k r)) \<le> length r"
  using length_takeWhile_le [of P "take k r"] by simp

lemma re_hex_length: "re_hex s = Some n \<Longrightarrow> n \<le> length s"
  using length_takeWhile_take [of is_hex 1]
  by (auto simp: re_hex_def split: list.splits if_splits)

lemma re_octal_length: "re_octal s = Some n \<Longrightarrow> n \<le> length s"
  using length_takeWhile_take [of is_digit 2]
  by (auto simp: re_octal_def split: list.splits if_splits)

lemma re_hex_start: "re_hex s = Some n \<Longrightarrow> \<exists>t. s = bslash # t"
  by (auto simp: re_hex_def split: list.splits if_splits)

lemma re_octal_start: "re_octal s = Some n \<Longrightarrow> \<exists>t. s = bslash # t"
  by (auto simp: re_octal_def split: list.splits if_splits)

lemma ReplaceAllFunc_before_bslash:
  assumes ext: "\<And>u v. u \<noteq> [] \<Longrightarrow> re (u @ bslash # v) = re u"
    and len: "\<And>s n. re s = Some n \<Longrightarrow> n \<le> length s"
  shows "ReplaceAllFunc re (pre @ bslash # w) repl
           = ReplaceAllFunc re pre repl @ ReplaceAllFunc re (bslash # w) repl"
proof (induction pre rule: length_induct)
  case (1 pre)
  show ?case
  proof (cases pre)
    case Nil
    then show ?thesis by simp
  next
    case (Cons c cs)
    have same: "re (c # cs @ bslash # w) = re (c # cs)"
      using ext [of "c # cs" w] by simp
    show ?thesis
    proof (cases "re (c # cs)")
      case None
      with same 1 Cons show ?thesis by simp
    next
      case (Some m)
      show ?thesis
      proof (cases m)
        case 0
        with Some same 1 Cons show ?thesis by simp
      next
        case (Suc n)
        with Some len [of "c # cs" m] have n: "n \<le> length cs"
          by simp
        have "length (drop n cs) < length pre"
          using Cons by simp
        with 1 have "ReplaceAllFunc re (drop n cs @ bslash # w) repl
            = ReplaceAllFunc re (drop n cs) repl @ ReplaceAllFunc re (bslash # w) repl"
          by blast
        with Some Suc same n Cons show ?thesis by simp
      qed
    qed
  qed
qed

lemma escape_anywhere:
  assumes re: "re = re_hex \<or> re = re_octal"
    and m: "re (span @ rest) = Some (length span)"
  shows "ReplaceAllFunc re (pre @ span @ rest) unquoteStr
           = ReplaceAllFunc re pre unquoteStr @ unquoteStr span
               @ ReplaceAllFunc re rest unquoteStr"
proof -
  from re m obtain w where w: "span @ rest = bslash # w"
    using re_hex_start re_octal_start by blast
  from re have "ReplaceAllFunc re (pre @ bslash # w) unquoteStr
      = ReplaceAllFunc re pre unquoteStr @ ReplaceAllFunc re (bslash # w) unquoteStr"
  proof
    assume "re = re_hex"
    then show ?thesis
      using ReplaceAllFunc_before_bslash [of re_hex pre w unquoteStr]
        re_hex_before_bslash re_hex_length by simp
  next
    assume "re = re_octal"
    then show ?thesis
      using ReplaceAllFunc_before_bslash [of re_octal pre w unquoteStr]
        re_octal_before_bslash re_octal_length by simp
  qed
  with w escape_step [OF re m] show ?thesis
    by simp
qed

lemma re_concat_None: "\<not> is_quote c \<Longrightarrow> re_concat (c # t) = None"
  by (simp add: re_concat_def)

lemma re_comment_None: "c \<noteq> CHR ''/'' \<Longrightarrow> re_comment (c # t) = None"
  by (simp add: re_comment_def split: list.splits)

lemma re_hex_None: "c \<noteq> bslash \<Longrightarrow> re_hex (c # t) = None"
  by (simp add: re_hex_def split: list.splits)

lemma re_octal_None: "c \<noteq> bslash \<Longrightarrow> re_octal (c # t) = None"
  by (simp add: re_octal_def split: list.splits)

lemma take_length_takeWhile:
  "take (length (takeWhile P (take k r))) r = takeWhile P (take k r)"
proof -
  have "r = takeWhile P (take k r) @ (dropWhile P (take k r) @ drop k r)"
    by (metis append_assoc takeWhile_dropWhile_id append_take_drop_id)
  then have "take (length (takeWhile P (take k r))) r
      = take (length (takeWhile P (take k r)))
          (takeWhile P (take k r) @ (dropWhile P (take k r) @ drop k r))"
    by simp
  then show ?thesis
    by simp
qed

lemma hex_span:
  assumes "re_hex (span @ rest) = Some (length span)"
  shows "\<exists>x h hs. span = bslash # x # h # hs \<and> (x = CHR ''x'' \<or> x = CHR ''X'')
           \<and> is_hex h \<and> (\<forall>c\<in>set hs. is_hex c)"
proof -
  from assms obtain b x h r where s: "span @ rest = b # x # h # r"
    and b: "b = bslash" and x: "x = CHR ''x'' \<or> x = CHR ''X''" and h: "is_hex h"
    and n: "length span = 3 + length (takeWhile is_hex (take 1 r))"
    by (auto simp: re_hex_def split: list.splits if_splits)
  have "span = take (length span) (span @ rest)"
    by simp
  also have "\<dots> = b # x # h # take (length (takeWhile is_hex (take 1 r))) r"
    unfolding s n by (simp add: numeral_3_eq_3)
  finally have "span = b # x # h # takeWhile is_hex (take 1 r)"
    by (simp only: take_length_takeWhile)
  moreover have "\<forall>c\<in>set (takeWhile is_hex (take 1 r)). is_hex c"
    by (auto dest: set_takeWhileD)
  ultimately show ?thesis
    using b x h by blast
qed

lemma octal_span:
  assumes "re_octal (span @ rest) = Some (length span)"
  shows "\<exists>d ds. span = bslash # d # ds \<and> is_digit d \<and> (\<forall>c\<in>set ds. is_digit c)"
proof -
  from assms obtain b d r where s: "span @ rest = b # d # r"
    and b: "b = bslash" and d: "is_digit d"
    and n: "length span = 2 + length (takeWhile is_digit (take 2 r))"
    by (auto simp: re_octal_def split: list.splits if_splits)
  have "span = take (length span) (span @ rest)"
    by simp
  also have "\<dots> = b # d # take (length (takeWhile is_digit (take 2 r))) r"
    unfolding s n by simp
  finally have "span = b # d # takeWhile is_digit (take 2 r)"
    by (simp only: take_length_takeWhile)
  moreover have "\<forall>c\<in>set (takeWhile is_digit (take 2 r)). is_digit c"
    by (auto dest: set_takeWhileD)
  ultimately show ?thesis
    using b d by blast
qed

lemma is_hex_plain: "is_hex c \<Longrightarrow> \<not> is_quote c \<and> c \<noteq> CHR ''/'' \<and> c \<noteq> bslash"
  by (auto simp: is_hex_def is_quote_def squote_def dquote_def bslash_def)

lemma is_digit_plain:
  "is_digit c \<Longrightarrow> \<not> is_quote c \<and> c \<noteq> CHR ''/'' \<and> c \<noteq> bslash
     \<and> c \<noteq> CHR ''x'' \<and> c \<noteq> CHR ''X''"
  by (auto simp: is_digit_def is_quote_def squote_def dquote_def bslash_def)

lemma bslash_plain: "\<not> is_quote bslash \<and> bslash \<noteq> CHR ''/''"
  by (simp add: is_quote_def squote_def dquote_def bslash_def)

lemma x_plain: "x = CHR ''x'' \<or> x = CHR ''X'' \<Longrightarrow> \<not> is_quote x \<and> x \<noteq> CHR ''/'' \<and> x \<noteq> bslash"
  by (auto simp: is_quote_def squote_def dquote_def bslash_def)

lemma hex_span_chars:
  assumes "re_hex (span @ rest) = Some (length span)" and "c \<in> set span"
  shows "\<not> is_quote c \<and> c \<noteq> CHR ''/''"
proof -
  from hex_span [OF assms(1)] obtain x h hs where span: "span = bslash # x # h # hs"
    and x: "x = CHR ''x'' \<or> x = CHR ''X''" and h: "is_hex h" and hs: "\<forall>c\<in>set hs. is_hex c"
    by blast
  from assms(2) span have "c = bslash \<or> c = x \<or> c = h \<or> c \<in> set hs"
    by simp
  then consider "c = bslash" | "c = x" | "is_hex c"
    using h hs by blast
  then show ?thesis
  proof cases
    case 1
    then show ?thesis using bslash_plain by simp
  next
    case 2
    then show ?thesis using x_plain [OF x] by simp
  next
    case 3
    then show ?thesis using is_hex_plain [of c] by simp
  qed
qed

lemma octal_span_chars:
  assumes "re_octal (span @ rest) = Some (length span)" and "c \<in> set span"
  shows "\<not> is_quote c \<and> c \<noteq> CHR ''/''"
proof -
  from octal_span [OF assms(1)] obtain d ds where span: "span = bslash # d # ds"
    and d: "is_digit d" and ds: "\<forall>c\<in>set ds. is_digit c"
    by blast
  from assms(2) span have "c = bslash \<or> c = d \<or> c \<in> set ds"
    by simp
  then consider "c = bslash" | "is_digit c"
    using d ds by blast
  then show ?thesis
  proof cases
    case 1
    then show ?thesis using bslash_plain by simp
  next
    case 2
    then show ?thesis using is_digit_plain [of c] by simp
  qed
qed

lemma span_no_quote_slash:
  assumes "re = re_hex \<or> re = re_octal" and "re (span @ rest) = Some (length span)"
    and "c \<in> set span"
  shows "\<not> is_quote c \<and> c \<noteq> CHR ''/''"
  using assms hex_span_chars [of span rest c] octal_span_chars [of span rest c]
  by blast

lemma skip_concat:
  "\<forall>c\<in>set p. \<not> is_quote c \<Longrightarrow>
   ReplaceAllFunc re_concat (p @ t) repl = p @ ReplaceAllFunc re_concat t repl"
  by (induction p) (simp_all add: re_concat_None)

lemma skip_comment:
  "\<forall>c\<in>set p. c \<noteq> CHR ''/'' \<Longrightarrow>
   ReplaceAllFunc re_comment (p @ t) repl = p @ ReplaceAllFunc re_comment t repl"
  by (induction p) (simp_all add: re_comment_None)

lemma skip_hex:
  "\<forall>c\<in>set p. c \<noteq> bslash \<Longrightarrow>
   ReplaceAllFunc re_hex (p @ t) repl = p @ ReplaceAllFunc re_hex t repl"
  by (induction p) (simp_all add: re_hex_None)

lemma skip_octal:
  "\<forall>c\<in>set p. c \<noteq> bslash \<Longrightarrow>
   ReplaceAllFunc re_octal (p @ t) repl = p @ ReplaceAllFunc re_octal t repl"
  by (induction p) (simp_all add: re_octal_None)

lemma octal_span_hex_step:
  assumes "re_octal (span @ rest) = Some (length span)"
    and pre: "\<forall>c\<in>set pre. c \<noteq> bslash" and rest: "\<forall>c\<in>set rest. c \<noteq> bslash"
  shows "ReplaceAllFunc re_hex (pre @ span @ rest) repl = pre @ span @ rest"
proof -
  from octal_span [OF assms(1)] obtain d ds where span: "span = bslash # d # ds"
    and d: "is_digit d" and ds: "\<forall>c\<in>set ds. is_digit c"
    by blast
  have "\<forall>c\<in>set (d # ds @ rest). c \<noteq> bslash"
  proof
    fix c
    assume "c \<in> set (d # ds @ rest)"
    then consider "is_digit c" | "c \<in> set rest"
      using d ds by auto
    then show "c \<noteq> bslash"
    proof cases
      case 1
      then show ?thesis using is_digit_plain [of c] by simp
    next
      case 2
      then show ?thesis using rest by simp
    qed
  qed
  then have tail: "ReplaceAllFunc re_hex (d # ds @ rest) repl = d # ds @ rest"
    using skip_hex [of "d # ds @ rest" "[]" repl] by simp
  have "re_hex (bslash # d # ds @ rest) = None"
    using d is_digit_plain [of d] by (simp add: re_hex_def split: list.splits)
  then have "ReplaceAllFunc re_hex (bslash # d # ds @ rest) repl = bslash # d # ds @ rest"
    using tail by simp
  then show ?thesis
    using skip_hex [OF pre, of "span @ rest" repl] by (simp add: span)
qed

lemma plain_chars:
  "plain s \<Longrightarrow> c \<in> set s \<Longrightarrow> \<not> is_quote c \<and> c \<noteq> CHR ''/'' \<and> c \<noteq> bslash"
  by (simp add: plain_def list_all_iff)

lemma steps_remove_malformed:
  assumes re: "re = re_hex \<or> re = re_octal"
    and m: "re (span @ rest) = Some (length span)"
    and gone: "unquoteStr span = []"
    and pre: "plain pre" and rest: "plain rest"
  shows "ReplaceAllFunc re_octal
           (ReplaceAllFunc re_hex
              (ReplaceAll re_comment (ReplaceAll re_concat (pre @ span @ rest) []) [])
              unquoteStr)
           unquoteStr
         = pre @ rest"
proof -
  let ?c = "pre @ span @ rest"
  have chars: "\<not> is_quote c \<and> c \<noteq> CHR ''/''" if "c \<in> set ?c" for c
  proof -
    from that consider "c \<in> set pre" | "c \<in> set span" | "c \<in> set rest"
      by auto
    then show ?thesis
    proof cases
      case 1
      then show ?thesis using plain_chars [OF pre] by blast
    next
      case 2
      then show ?thesis using span_no_quote_slash [OF re m] by blast
    next
      case 3
      then show ?thesis using plain_chars [OF rest] by blast
    qed
  qed
  have "\<forall>c\<in>set ?c. \<not> is_quote c"
    using chars by blast
  then have s1: "ReplaceAll re_concat ?c [] = ?c"
    unfolding ReplaceAll_def using skip_concat [of ?c "[]"] by simp
  have "\<forall>c\<in>set ?c. c \<noteq> CHR ''/''"
    using chars by blast
  then have s2: "ReplaceAll re_comment ?c [] = ?c"
    unfolding ReplaceAll_def using skip_comment [of ?c "[]"] by simp
  have pre_b: "\<forall>c\<in>set pre. c \<noteq> bslash"
    using plain_chars [OF pre] by blast
  have rest_b: "\<forall>c\<in>set rest. c \<noteq> bslash"
    using plain_chars [OF rest] by blast
  have hex_pre: "ReplaceAllFunc re_hex pre unquoteStr = pre"
    using skip_hex [OF pre_b, of "[]"] by simp
  have hex_rest: "ReplaceAllFunc re_hex rest unquoteStr = rest"
    using skip_hex [OF rest_b, of "[]"] by simp
  have oct_pre: "ReplaceAllFunc re_octal pre unquoteStr = pre"
    using skip_octal [OF pre_b, of "[]"] by simp
  have oct_rest: "ReplaceAllFunc re_octal rest unquoteStr = rest"
    using skip_octal [OF rest_b, of "[]"] by simp
  have oct_both: "ReplaceAllFunc re_octal (pre @ rest) unquoteStr = pre @ rest"
    using skip_octal [OF pre_b, of rest unquoteStr] oct_rest by simp
  from re have "ReplaceAllFunc re_octal (ReplaceAllFunc re_hex ?c unquoteStr) unquoteStr
      = pre @ rest"
  proof (rule disjE)
    assume h: "re = re_hex"
    from escape_anywhere [OF re m, of pre] h
    have "ReplaceAllFunc re_hex ?c unquoteStr = pre @ rest"
      by (simp add: gone hex_pre hex_rest)
    with oct_both show ?thesis
      by simp
  next
    assume h: "re = re_octal"
    from m h have "ReplaceAllFunc re_hex ?c unquoteStr = ?c"
      using octal_span_hex_step [OF _ pre_b rest_b, of span unquoteStr] by simp
    moreover from escape_anywhere [OF re m, of pre] h
    have "ReplaceAllFunc re_octal ?c unquoteStr = pre @ rest"
      by (simp add: gone oct_pre oct_rest)
    ultimately show ?thesis
      by simp
  qed
  with s1 s2 show ?thesis
    by simp
qed

text \<open>
  Claim C7. \<open>unquoteStr\<close> returns the empty sequence whenever \<open>strconv.Unquote\<close> fails on
  the quoted span, and never an error. In the hex step and in the octal step, a matched
  span whose decoding fails is replaced by the empty sequence wherever it stands in the
  input: the result is the replacement of what comes before it, followed by the
  replacement of what comes after it. So it is in the normalization of \<open>checkFile\<close>, with
  the normalizers that \<open>compileNormalizers\<close> returns: for a span matched in step 3 in the
  content that steps 1 and 2 leave, and for a span matched in step 4 in the content that
  step 3 leaves. When the bytes before and after the span have no quote, slash or
  backslash, the normalized content is the content without the span, and \<open>checkFile\<close>
  tests the signatures on it: a file with \<open>ev\400al($_POST[0])\<close> is reported for the
  pattern \<open>eval\s*\(\$_\<close>, which its raw content does not match. Normalization has no way
  to stop the scan: when the content \<open>c\<close> of a file is read, \<open>checkFile\<close> goes on to test
  the signatures on the normalized content, whatever \<open>c\<close> is.
\<close>

theorem decode_failure_is_empty:
  "(isl (Unquote ([squote] @ s @ [squote])) \<longrightarrow> unquoteStr s = [])
   \<and> ((re = re_hex \<or> re = re_octal) \<and> re (span @ rest) = Some (length span)
        \<and> isl (Unquote ([squote] @ span @ [squote]))
      \<longrightarrow> ReplaceAllFunc re (pre @ span @ rest) unquoteStr
            = ReplaceAllFunc re pre unquoteStr @ ReplaceAllFunc re rest unquoteStr)
   \<and> (compileNormalizers = Inr nr
        \<and> ReplaceAll re_comment (ReplaceAll re_concat c3 []) [] = pre3 @ span3 @ rest3
        \<and> re_hex (span3 @ rest3) = Some (length span3)
        \<and> isl (Unquote ([squote] @ span3 @ [squote]))
      \<longrightarrow> normalize_content nr c3
            = ReplaceAllFunc re_octal
                (ReplaceAllFunc re_hex pre3 unquoteStr @ ReplaceAllFunc re_hex rest3 unquoteStr)
                unquoteStr)
   \<and> (compileNormalizers = Inr nr
        \<and> ReplaceAllFunc re_hex (ReplaceAll re_comment (ReplaceAll re_concat c4 []) [])
              unquoteStr = pre4 @ span4 @ rest4
        \<and> re_octal (span4 @ rest4) = Some (length span4)
        \<and> isl (Unquote ([squote] @ span4 @ [squote]))
      \<longrightarrow> normalize_content nr c4
            = ReplaceAllFunc re_octal pre4 unquoteStr @ ReplaceAllFunc re_octal rest4 unquoteStr)
   \<and> (compileNormalizers = Inr nr \<and> (re' = re_hex \<or> re' = re_octal)
        \<and> re' (e @ r) = Some (length e) \<and> isl (Unquote ([squote] @ e @ [squote]))
        \<and> plain p \<and> plain r
      \<longrightarrow> normalize_content nr (p @ e @ r) = p @ r
          \<and> (FFILTER g \<noteq> {} \<and> os_open path = Inr f \<and> Stat_size f = Inr sz
               \<and> sz \<le> MAXFILESIZE \<and> ReadAll_bytes f = Inr (p @ e @ r)
             \<longrightarrow> checkFile g D os_open path sigs nr
                   = [Op Open, Op Stat, Op ReadAll] @ test_signatures sigs (p @ r) path
                       @ [Op Close]))
   \<and> (Stat_size f = Inr sz \<and> sz \<le> MAXFILESIZE \<and> ReadAll_bytes f = Inr c \<and> 2 \<le> length nr'
      \<longrightarrow> check_content f path sigs nr'
            = [Op Stat, Op ReadAll] @ test_signatures sigs (normalize_content nr' c) path)"
proof (intro conjI impI)
  assume "isl (Unquote ([squote] @ s @ [squote]))"
  then show "unquoteStr s = []"
    by (auto simp: unquoteStr_def split: sum.splits)
next
  assume h: "(re = re_hex \<or> re = re_octal) \<and> re (span @ rest) = Some (length span)
        \<and> isl (Unquote ([squote] @ span @ [squote]))"
  then have "unquoteStr span = []"
    by (auto simp: unquoteStr_def split: sum.splits)
  with h escape_anywhere [of re span rest pre]
  show "ReplaceAllFunc re (pre @ span @ rest) unquoteStr
            = ReplaceAllFunc re pre unquoteStr @ ReplaceAllFunc re rest unquoteStr"
    by simp
next
  assume h: "compileNormalizers = Inr nr
        \<and> ReplaceAll re_comment (ReplaceAll re_concat c3 []) [] = pre3 @ span3 @ rest3
        \<and> re_hex (span3 @ rest3) = Some (length span3)
        \<and> isl (Unquote ([squote] @ span3 @ [squote]))"
  then have nr: "nr = [re_concat, re_comment, re_hex, re_octal]"
    by (auto simp: compileNormalizers_def)
  from h have gone: "unquoteStr span3 = []"
    by (auto simp: unquoteStr_def split: sum.splits)
  from h have "normalize_content nr c3
      = ReplaceAllFunc re_octal (ReplaceAllFunc re_hex (pre3 @ span3 @ rest3) unquoteStr)
          unquoteStr"
    by (simp add: nr normalize_content_def)
  with h gone escape_anywhere [of re_hex span3 rest3 pre3]
  show "normalize_content nr c3
            = ReplaceAllFunc re_octal
                (ReplaceAllFunc re_hex pre3 unquoteStr @ ReplaceAllFunc re_hex rest3 unquoteStr)
                unquoteStr"
    by simp
next
  assume h: "compileNormalizers = Inr nr
        \<and> ReplaceAllFunc re_hex (ReplaceAll re_comment (ReplaceAll re_concat c4 []) [])
              unquoteStr = pre4 @ span4 @ rest4
        \<and> re_octal (span4 @ rest4) = Some (length span4)
        \<and> isl (Unquote ([squote] @ span4 @ [squote]))"
  then have nr: "nr = [re_concat, re_comment, re_hex, re_octal]"
    by (auto simp: compileNormalizers_def)
  from h have gone: "unquoteStr span4 = []"
    by (auto simp: unquoteStr_def split: sum.splits)
  from h have "normalize_content nr c4
      = ReplaceAllFunc re_octal (pre4 @ span4 @ rest4) unquoteStr"
    by (simp add: nr normalize_content_def)
  with h gone escape_anywhere [of re_octal span4 rest4 pre4]
  show "normalize_content nr c4
            = ReplaceAllFunc re_octal pre4 unquoteStr @ ReplaceAllFunc re_octal rest4 unquoteStr"
    by simp
next
  assume h: "compileNormalizers = Inr nr \<and> (re' = re_hex \<or> re' = re_octal)
        \<and> re' (e @ r) = Some (length e) \<and> isl (Unquote ([squote] @ e @ [squote]))
        \<and> plain p \<and> plain r"
  then have nr: "nr = [re_concat, re_comment, re_hex, re_octal]"
    by (auto simp: compileNormalizers_def)
  from h have gone: "unquoteStr e = []"
    by (auto simp: unquoteStr_def split: sum.splits)
  from h gone steps_remove_malformed [of re' e r p]
  show "normalize_content nr (p @ e @ r) = p @ r"
    by (simp add: nr normalize_content_def)
next
  assume h: "compileNormalizers = Inr nr \<and> (re' = re_hex \<or> re' = re_octal)
        \<and> re' (e @ r) = Some (length e) \<and> isl (Unquote ([squote] @ e @ [squote]))
        \<and> plain p \<and> plain r"
    and opened: "FFILTER g \<noteq> {} \<and> os_open path = Inr f \<and> Stat_size f = Inr sz
               \<and> sz \<le> MAXFILESIZE \<and> ReadAll_bytes f = Inr (p @ e @ r)"
  from h have nr: "nr = [re_concat, re_comment, re_hex, re_octal]"
    by (auto simp: compileNormalizers_def)
  from h have gone: "unquoteStr e = []"
    by (auto simp: unquoteStr_def split: sum.splits)
  from h gone steps_remove_malformed [of re' e r p]
  have "normalize_content nr (p @ e @ r) = p @ r"
    by (simp add: nr normalize_content_def)
  with opened
  show "checkFile g D os_open path sigs nr
          = [Op Open, Op Stat, Op ReadAll] @ test_signatures sigs (p @ r) path @ [Op Close]"
    by (simp add: checkFile_def check_opened_def check_content_def nr)
next
  assume "Stat_size f = Inr sz \<and> sz \<le> MAXFILESIZE \<and> ReadAll_bytes f = Inr c
            \<and> 2 \<le> length nr'"
  then show "check_content f path sigs nr'
            = [Op Stat, Op ReadAll] @ test_signatures sigs (normalize_content nr' c) path"
    by (simp add: check_content_def)
qed

theorem decode_failure_is_empty_witness:
  "isl (Unquote ([squote] @ bad_octal @ [squote]))
   \<and> unquoteStr bad_octal = []
   \<and> re_hex ((bslash # ''x6'') @ ''g'') = Some (length (bslash # ''x6''))
   \<and> isl (Unquote ([squote] @ (bslash # ''x6'') @ [squote]))
   \<and> ReplaceAllFunc re_hex ((''a'' @ bslash # ''x41'') @ (bslash # ''x6'') @ ''g'') unquoteStr
        = ''aAg''
   \<and> compileNormalizers = Inr example_nr
   \<and> ReplaceAll re_comment (ReplaceAll re_concat (''a/* */b'' @ bslash # ''x6g'') []) []
        = ''ab'' @ (bslash # ''x6'') @ ''g''
   \<and> normalize_content example_nr (''a/* */b'' @ bslash # ''x6g'') = ''abg''
   \<and> ReplaceAllFunc re_hex
         (ReplaceAll re_comment (ReplaceAll re_concat (bslash # ''x5c98!'') []) []) unquoteStr
        = [] @ (bslash # ''98'') @ ''!''
   \<and> re_octal ((bslash # ''98'') @ ''!'') = Some (length (bslash # ''98''))
   \<and> isl (Unquote ([squote] @ (bslash # ''98'') @ [squote]))
   \<and> normalize_content example_nr (bslash # ''x5c98!'') = ''!''
   \<and> re_octal (bad_octal @ ''al($_POST[0])'') = Some (length bad_octal)
   \<and> plain ''ev'' \<and> plain ''al($_POST[0])''
   \<and> normalize_content example_nr obfuscated = ''eval($_POST[0])''
   \<and> \<not> matches WebShell obfuscated
   \<and> matches WebShell (normalize_content example_nr obfuscated)
   \<and> FFILTER example_globals \<noteq> {}
   \<and> obfuscated_fs ''a.php'' = Inr (regular_file obfuscated)
   \<and> Stat_size (regular_file obfuscated) = Inr 19
   \<and> 19 \<le> MAXFILESIZE
   \<and> ReadAll_bytes (regular_file obfuscated) = Inr obfuscated
   \<and> checkFile example_globals example_sniff obfuscated_fs ''a.php'' [WebShell] example_nr
        = [Op Open, Op Stat, Op ReadAll, Test 1,
           Stdout (''Matched: WebShell (signature id = 1): a.php'' @ nl), Op Close]
   \<and> 2 \<le> length example_nr
   \<and> check_content (regular_file obfuscated) ''a.php'' [WebShell] example_nr
        = [Op Stat, Op ReadAll, Test 1,
           Stdout (''Matched: WebShell (signature id = 1): a.php'' @ nl)]"
proof -
  have s1: "isl (Unquote ([squote] @ bad_octal @ [squote]))"
    by code_simp
  have h2: "re_hex ((bslash # ''x6'') @ ''g'') = Some (length (bslash # ''x6''))"
    "isl (Unquote ([squote] @ (bslash # ''x6'') @ [squote]))"
    by code_simp+
  have e2: "ReplaceAllFunc re_hex (''a'' @ bslash # ''x41'') unquoteStr
               @ ReplaceAllFunc re_hex ''g'' unquoteStr = ''aAg''"
    by code_simp
  have nr: "compileNormalizers = Inr example_nr"
    by (simp add: compileNormalizers_def example_nr_def)
  have h3: "ReplaceAll re_comment (ReplaceAll re_concat (''a/* */b'' @ bslash # ''x6g'') []) []
        = ''ab'' @ (bslash # ''x6'') @ ''g''"
    by code_simp
  have e3: "ReplaceAllFunc re_octal
       (ReplaceAllFunc re_hex ''ab'' unquoteStr @ ReplaceAllFunc re_hex ''g'' unquoteStr)
       unquoteStr = ''abg''"
    by code_simp
  have h4: "ReplaceAllFunc re_hex
         (ReplaceAll re_comment (ReplaceAll re_concat (bslash # ''x5c98!'') []) []) unquoteStr
        = [] @ (bslash # ''98'') @ ''!''"
    "re_octal ((bslash # ''98'') @ ''!'') = Some (length (bslash # ''98''))"
    "isl (Unquote ([squote] @ (bslash # ''98'') @ [squote]))"
    by code_simp+
  have e4: "ReplaceAllFunc re_octal [] unquoteStr @ ReplaceAllFunc re_octal ''!'' unquoteStr
        = ''!''"
    by code_simp
  have h5: "re_octal (bad_octal @ ''al($_POST[0])'') = Some (length bad_octal)"
    "plain ''ev''" "plain ''al($_POST[0])''"
    by code_simp+
  have raw: "\<not> matches WebShell obfuscated"
    by code_simp
  have opened: "FFILTER example_globals \<noteq> {}"
    "obfuscated_fs ''a.php'' = Inr (regular_file obfuscated)"
    "Stat_size (regular_file obfuscated) = Inr 19" "19 \<le> MAXFILESIZE"
    "ReadAll_bytes (regular_file obfuscated) = Inr (''ev'' @ bad_octal @ ''al($_POST[0])'')"
    "2 \<le> length example_nr"
    by (simp_all add: example_globals_def obfuscated_fs_def regular_file_def obfuscated_def
          bad_octal_def MAXFILESIZE_def example_nr_def)
  have tests: "test_signatures [WebShell] (''ev'' @ ''al($_POST[0])'') ''a.php''
                 = [Test 1, Stdout (''Matched: WebShell (signature id = 1): a.php'' @ nl)]"
    by code_simp
  note inst = decode_failure_is_empty [where s = bad_octal and re = re_hex
      and pre = "''a'' @ bslash # ''x41''" and span = "bslash # ''x6''" and rest = "''g''"
      and nr = example_nr and ?c3.0 = "''a/* */b'' @ bslash # ''x6g''" and ?pre3.0 = "''ab''"
      and ?span3.0 = "bslash # ''x6''" and ?rest3.0 = "''g''"
      and ?c4.0 = "bslash # ''x5c98!''" and ?pre4.0 = "[]" and ?span4.0 = "bslash # ''98''"
      and ?rest4.0 = "''!''"
      and re' = re_octal and p = "''ev''" and e = bad_octal and r = "''al($_POST[0])''"
      and g = example_globals and os_open = obfuscated_fs and path = "''a.php''"
      and f = "regular_file obfuscated" and sz = 19 and D = example_sniff
      and sigs = "[WebShell]" and c = "''ev'' @ bad_octal @ ''al($_POST[0])''"
      and nr' = example_nr]
  from inst s1 have c1: "unquoteStr bad_octal = []"
    by blast
  from inst h2 have "ReplaceAllFunc re_hex ((''a'' @ bslash # ''x41'') @ (bslash # ''x6'') @ ''g'')
        unquoteStr
      = ReplaceAllFunc re_hex (''a'' @ bslash # ''x41'') unquoteStr
          @ ReplaceAllFunc re_hex ''g'' unquoteStr"
    by blast
  then have c2: "ReplaceAllFunc re_hex ((''a'' @ bslash # ''x41'') @ (bslash # ''x6'') @ ''g'')
        unquoteStr = ''aAg''"
    by (simp only: e2)
  from inst nr h3 h2 have "normalize_content example_nr (''a/* */b'' @ bslash # ''x6g'')
      = ReplaceAllFunc re_octal
          (ReplaceAllFunc re_hex ''ab'' unquoteStr @ ReplaceAllFunc re_hex ''g'' unquoteStr)
          unquoteStr"
    by blast
  then have c3: "normalize_content example_nr (''a/* */b'' @ bslash # ''x6g'') = ''abg''"
    by (simp only: e3)
  from inst nr h4 have "normalize_content example_nr (bslash # ''x5c98!'')
      = ReplaceAllFunc re_octal [] unquoteStr @ ReplaceAllFunc re_octal ''!'' unquoteStr"
    by blast
  then have c4: "normalize_content example_nr (bslash # ''x5c98!'') = ''!''"
    by (simp only: e4)
  from inst nr h5 s1 have c5: "normalize_content example_nr (''ev'' @ bad_octal @ ''al($_POST[0])'')
        = ''ev'' @ ''al($_POST[0])''"
    and "FFILTER example_globals \<noteq> {}
           \<and> obfuscated_fs ''a.php'' = Inr (regular_file obfuscated)
           \<and> Stat_size (regular_file obfuscated) = Inr 19
           \<and> 19 \<le> MAXFILESIZE
           \<and> ReadAll_bytes (regular_file obfuscated)
                = Inr (''ev'' @ bad_octal @ ''al($_POST[0])'')
         \<longrightarrow> checkFile example_globals example_sniff obfuscated_fs ''a.php'' [WebShell] example_nr
               = [Op Open, Op Stat, Op ReadAll]
                   @ test_signatures [WebShell] (''ev'' @ ''al($_POST[0])'') ''a.php''
                   @ [Op Close]"
    by blast+
  with opened have "checkFile example_globals example_sniff obfuscated_fs ''a.php'' [WebShell]
        example_nr
      = [Op Open, Op Stat, Op ReadAll]
          @ test_signatures [WebShell] (''ev'' @ ''al($_POST[0])'') ''a.php'' @ [Op Close]"
    by blast
  then have "checkFile example_globals example_sniff obfuscated_fs ''a.php'' [WebShell]
        example_nr
      = [Op Open, Op Stat, Op ReadAll]
          @ [Test 1, Stdout (''Matched: WebShell (signature id = 1): a.php'' @ nl)]
          @ [Op Close]"
    by (simp only: tests)
  then have c6: "checkFile example_globals example_sniff obfuscated_fs ''a.php'' [WebShell]
        example_nr
      = [Op Open, Op Stat, Op ReadAll, Test 1,
         Stdout (''Matched: WebShell (signature id = 1): a.php'' @ nl), Op Close]"
    by simp
  from inst opened have "check_content (regular_file obfuscated) ''a.php'' [WebShell] example_nr
      = [Op Stat, Op ReadAll]
          @ test_signatures [WebShell]
              (normalize_content example_nr (''ev'' @ bad_octal @ ''al($_POST[0])'')) ''a.php''"
    by blast
  then have "check_content (regular_file obfuscated) ''a.php'' [WebShell] example_nr
      = [Op Stat, Op ReadAll]
          @ [Test 1, Stdout (''Matched: WebShell (signature id = 1): a.php'' @ nl)]"
    by (simp only: c5 tests)
  then have c7: "check_content (regular_file obfuscated) ''a.php'' [WebShell] example_nr
      = [Op Stat, Op ReadAll, Test 1,
         Stdout (''Matched: WebShell (signature id = 1): a.php'' @ nl)]"
    by simp
  have c5': "normalize_content example_nr obfuscated = ''eval($_POST[0])''"
    using c5 by (simp add: obfuscated_def)
  have bytes: "ReadAll_bytes (regular_file obfuscated) = Inr obfuscated"
    using opened(5) by (simp add: obfuscated_def)
  have m: "matches WebShell (normalize_content example_nr obfuscated)"
    by code_simp
  show ?thesis
    using s1 c1 h2 c2 nr h3 c3 h4 c4 h5 c5' raw m opened(1-4) bytes c6 opened(6) c7
    by (intro conjI)
qed

lemma vector_one_hex_digit:
  "normalize_content [re_concat, re_comment, re_hex, re_octal] (bslash # ''x6g'') = ''g''"
  by code_simp

lemma vector_decimal_digits:
  "normalize_content [re_concat, re_comment, re_hex, re_octal] (bslash # ''98'') = []"
  by code_simp

lemma is_digit_89: "is_digit (CHR ''8'')" "is_digit (CHR ''9'')"
  by (simp_all add: is_digit_def)

text \<open>
  Claim C9. The hex step matches a backslash, \<open>x\<close> or \<open>X\<close>, and one hex digit, or two
  when a second follows; the octal step matches a backslash and one to three decimal
  digits, \<open>8\<close> and \<open>9\<close> among them. Every span matched in these steps is replaced by its
  decoding, which is empty when the span is not a valid escape; a span with one hex
  digit, with \<open>X\<close>, or beginning \<open>\8\<close> or \<open>\9\<close> never is. So \<open>\x6g\<close> becomes \<open>g\<close> and \<open>\98\<close>
  becomes the empty sequence.
\<close>

theorem escape_spans_matched_and_deleted:
  "(is_hex h \<and> (x = CHR ''x'' \<or> x = CHR ''X'')
      \<longrightarrow> re_hex (bslash # x # h # r) = Some (if r \<noteq> [] \<and> is_hex (hd r) then 4 else 3))
   \<and> (is_digit d
      \<longrightarrow> re_octal (bslash # d # t) = Some (2 + length (takeWhile is_digit (take 2 t))))
   \<and> is_digit (CHR ''8'') \<and> is_digit (CHR ''9'')
   \<and> ((re = re_hex \<or> re = re_octal) \<and> re (span @ rest) = Some (length span)
      \<longrightarrow> ReplaceAllFunc re (span @ rest) unquoteStr =
            (case Unquote ([squote] @ span @ [squote]) of Inl err \<Rightarrow> [] | Inr u \<Rightarrow> u)
              @ ReplaceAllFunc re rest unquoteStr)
   \<and> Unquote ([squote] @ [bslash, CHR ''x'', h'] @ [squote]) = Inl ErrSyntax
   \<and> Unquote ([squote] @ (bslash # CHR ''X'' # r') @ [squote]) = Inl ErrSyntax
   \<and> Unquote ([squote] @ (bslash # CHR ''8'' # r') @ [squote]) = Inl ErrSyntax
   \<and> Unquote ([squote] @ (bslash # CHR ''9'' # r') @ [squote]) = Inl ErrSyntax
   \<and> normalize_content [re_concat, re_comment, re_hex, re_octal] (bslash # ''x6g'') = ''g''
   \<and> normalize_content [re_concat, re_comment, re_hex, re_octal] (bslash # ''98'') = []"
  using re_hex_match [of h x r] re_octal_match [of d t] is_digit_89
    escape_step [of re span rest] hex_one_digit_fails [of h'] hex_upper_fails [of r']
    octal_89_fails [of "CHR ''8''" r'] octal_89_fails [of "CHR ''9''" r']
    vector_one_hex_digit vector_decimal_digits
  by (simp add: unquoteStr_def)

theorem escape_spans_matched_and_deleted_witness:
  "is_hex (CHR ''6'')
   \<and> re_hex (bslash # CHR ''x'' # CHR ''6'' # ''g'') = Some 3
   \<and> is_digit (CHR ''9'')
   \<and> re_octal (bslash # CHR ''9'' # ''8'') = Some 3
   \<and> re_hex ([bslash, CHR ''x'', CHR ''6''] @ ''g'') = Some (length [bslash, CHR ''x'', CHR ''6''])
   \<and> ReplaceAllFunc re_hex ([bslash, CHR ''x'', CHR ''6''] @ ''g'') unquoteStr = ''g''"
proof -
  have facts: "is_hex (CHR ''6'')" "is_digit (CHR ''9'')" "\<not> is_hex (hd ''g'')"
    "length (takeWhile is_digit (take 2 ''8'')) = 1"
    "re_hex ([bslash, CHR ''x'', CHR ''6''] @ ''g'') = Some (length [bslash, CHR ''x'', CHR ''6''])"
    "Unquote ([squote] @ [bslash, CHR ''x'', CHR ''6''] @ [squote]) = Inl ErrSyntax"
    "ReplaceAllFunc re_hex ''g'' unquoteStr = ''g''"
    by code_simp+
  note inst = escape_spans_matched_and_deleted [where h = "CHR ''6''" and x = "CHR ''x''"
      and r = "''g''" and d = "CHR ''9''" and t = "''8''" and re = re_hex
      and span = "[bslash, CHR ''x'', CHR ''6'']" and rest = "''g''"]
  from inst facts(1,3) have hex: "re_hex (bslash # CHR ''x'' # CHR ''6'' # ''g'') = Some 3"
    by simp
  from inst facts(2,4) have oct: "re_octal (bslash # CHR ''9'' # ''8'') = Some 3"
    by simp
  from inst facts(5) have "ReplaceAllFunc re_hex ([bslash, CHR ''x'', CHR ''6''] @ ''g'') unquoteStr =
            (case Unquote ([squote] @ [bslash, CHR ''x'', CHR ''6''] @ [squote]) of
               Inl err \<Rightarrow> [] | Inr u \<Rightarrow> u)
              @ ReplaceAllFunc re_hex ''g'' unquoteStr"
    by blast
  then have del: "ReplaceAllFunc re_hex ([bslash, CHR ''x'', CHR ''6''] @ ''g'') unquoteStr = ''g''"
    by (simp only: facts(6,7) sum.case append_Nil)
  from hex oct del facts(1,2,5) show ?thesis
    by (intro conjI)
qed

section \<open>\<open>FileExtensions.Set\<close>: the extension filter\<close>

lemma Set_entry_eq:
  "Set_entry li s = (if TrimSpace s = [] then li else insert (with_dot (TrimSpace s)) li)"
  by (simp add: Set_entry_def with_dot_def Let_def)

lemma foldl_Set_entry:
  "foldl Set_entry li xs = li \<union> with_dot ` {s \<in> TrimSpace ` set xs. s \<noteq> []}"
  by (induction xs arbitrary: li) (auto simp: Set_entry_eq)

lemma dotted_with_dot: "s \<noteq> [] \<Longrightarrow> dotted (with_dot s)"
  by (simp add: dotted_def with_dot_def)

text \<open>
  Claim C8. From the empty filter, \<open>Set\<close> stores the entries of the comma-separated
  value that are not empty once trimmed, each with a leading dot (the dot is added to
  an entry that has none), and returns no error. Every extension stored begins with a
  dot, and this is kept by every call. When the filter is not empty, \<open>Set\<close> returns the
  error \<open>flag already set\<close> and leaves the filter as it is. A bare \<open>php\<close> is stored as
  \<open>.php\<close>.
\<close>

theorem extension_filter_set_once:
  "Set {} v = (None, with_dot ` {s \<in> TrimSpace ` set (Split v (CHR '','')). s \<noteq> []})
   \<and> ((\<forall>e\<in>li. dotted e) \<longrightarrow> (\<forall>e\<in>snd (Set li v). dotted e))
   \<and> (li \<noteq> {} \<longrightarrow> Set li v = (Some FlagAlreadySet, li))
   \<and> Set {} ''php'' = (None, {''.php''})"
proof (intro conjI impI)
  show "Set {} v = (None, with_dot ` {s \<in> TrimSpace ` set (Split v (CHR '','')). s \<noteq> []})"
    by (simp add: Set_def foldl_Set_entry)
  show "Set {} ''php'' = (None, {''.php''})"
    by (simp add: Set_def Set_entry_def TrimSpace_def TrimLeft.simps TrimRight.simps
          DecodeLastRune_def IsSpace_def code_def Let_def)
next
  assume "\<forall>e\<in>li. dotted e"
  then show "\<forall>e\<in>snd (Set li v). dotted e"
    by (auto simp: Set_def foldl_Set_entry dotted_with_dot)
next
  assume "li \<noteq> {}"
  then show "Set li v = (Some FlagAlreadySet, li)"
    by (simp add: Set_def)
qed

theorem extension_filter_set_once_witness:
  "Set {} '' php, .inc ,, js'' = (None, {''.php'', ''.inc'', ''.js''})
   \<and> dotted ''.php'' \<and> dotted ''.inc'' \<and> dotted ''.js''
   \<and> {''.php'', ''.inc'', ''.js''} \<noteq> {}
   \<and> Set {''.php'', ''.inc'', ''.js''} ''html'' = (Some FlagAlreadySet, {''.php'', ''.inc'', ''.js''})"
proof -
  have first: "Set {} '' php, .inc ,, js'' = (None, {''.php'', ''.inc'', ''.js''})"
    by (simp add: Set_def Set_entry_def TrimSpace_def TrimLeft.simps TrimRight.simps
          DecodeLastRune_def IsSpace_def code_def Let_def insert_commute)
  have "\<forall>e\<in>{}. dotted e"
    by simp
  with extension_filter_set_once [of "'' php, .inc ,, js''" "{}"]
  have "\<forall>e\<in>snd (Set {} '' php, .inc ,, js''). dotted e"
    by blast
  then have d: "dotted ''.php''" "dotted ''.inc''" "dotted ''.js''"
    by (simp_all add: first)
  have ne: "{''.php'', ''.inc'', ''.js''} \<noteq> ({} :: string set)"
    by simp
  with extension_filter_set_once [of "''html''" "{''.php'', ''.inc'', ''.js''}"]
  have "Set {''.php'', ''.inc'', ''.js''} ''html'' = (Some FlagAlreadySet, {''.php'', ''.inc'', ''.js''})"
    by blast
  with first d ne show ?thesis
    by (intro conjI)
qed

section \<open>\<open>checkFile\<close>: a first read that fails\<close>

text \<open>
  Claim C10. With no extension filter, when the first read of the opened file fails,
  \<open>checkFile\<close> does not classify the content: whatever \<open>DetectContentType\<close> is, it goes on
  to the seek and, when the seek succeeds, to the size check. When the file is then
  within the ceiling and is read, its content is normalized and the signatures are
  tested. The empty file is such a file: its first read fails with \<open>EOF\<close>.
\<close>

theorem read_error_bypasses_sniffing:
  "(FFILTER g = {} \<and> os path = Inr f \<and> Read_head f = Inl err
      \<longrightarrow> checkFile g D os path sigs nr =
            [Op Open, Op Read, Op Seek]
              @ (case Seek_start f of
                   Some e \<Rightarrow> [Logged (warning e path)]
                 | None \<Rightarrow> check_content f path sigs nr)
              @ [Op Close])
   \<and> (FFILTER g = {} \<and> os path = Inr f \<and> Read_head f = Inl err \<and> Seek_start f = None
       \<and> Stat_size f = Inr sz \<and> sz \<le> MAXFILESIZE \<and> ReadAll_bytes f = Inr c \<and> 2 \<le> length nr
      \<longrightarrow> checkFile g D os path sigs nr =
            [Op Open, Op Read, Op Seek, Op Stat, Op ReadAll]
              @ test_signatures sigs (normalize_content nr c) path @ [Op Close])"
  using check_content_read [of f sz c nr path sigs]
  by (auto simp: checkFile_def check_opened_def split: option.splits)

theorem read_error_bypasses_sniffing_witness:
  "FFILTER no_filter = {}
   \<and> example_fs ''empty.php'' = Inr (regular_file [])
   \<and> Read_head (regular_file []) = Inl ''EOF''
   \<and> Seek_start (regular_file []) = None
   \<and> Stat_size (regular_file []) = Inr 0
   \<and> 0 \<le> MAXFILESIZE
   \<and> ReadAll_bytes (regular_file []) = Inr []
   \<and> 2 \<le> length example_nr
   \<and> checkFile no_filter sniff_binary example_fs ''empty.php'' [Decoy, Anything] example_nr =
       [Op Open, Op Read, Op Seek, Op Stat, Op ReadAll, Test 7, Test 4,
        Stdout (''Matched: Anything (signature id = 4): empty.php'' @ nl), Op Close]"
proof -
  have hyps: "FFILTER no_filter = {}" "example_fs ''empty.php'' = Inr (regular_file [])"
    "Read_head (regular_file []) = Inl ''EOF''" "Seek_start (regular_file []) = None"
    "Stat_size (regular_file []) = Inr 0" "0 \<le> MAXFILESIZE"
    "ReadAll_bytes (regular_file []) = Inr []" "2 \<le> length example_nr"
    by code_simp+
  have tests: "test_signatures [Decoy, Anything] (normalize_content example_nr []) ''empty.php''
      = [Test 7, Test 4, Stdout (''Matched: Anything (signature id = 4): empty.php'' @ nl)]"
    by code_simp
  from read_error_bypasses_sniffing [of no_filter example_fs "''empty.php''" "regular_file []"
      "''EOF''" sniff_binary "[Decoy, Anything]" example_nr 0 "[]"] hyps
  have "checkFile no_filter sniff_binary example_fs ''empty.php'' [Decoy, Anything] example_nr =
            [Op Open, Op Read, Op Seek, Op Stat, Op ReadAll]
              @ test_signatures [Decoy, Anything] (normalize_content example_nr []) ''empty.php''
              @ [Op Close]"
    by blast
  then have "checkFile no_filter sniff_binary example_fs ''empty.php'' [Decoy, Anything] example_nr =
       [Op Open, Op Read, Op Seek, Op Stat, Op ReadAll, Test 7, Test 4,
        Stdout (''Matched: Anything (signature id = 4): empty.php'' @ nl), Op Close]"
    by (simp only: tests append.simps)
  with hyps show ?thesis
    by (intro conjI)
qed

end
